theory Spec2Isabelle
  imports Complex_Main "HOL-Library.Multiset"
begin

section \<open>Accessibility conversion tool: the page-layout helpers of \<open>accessibility-tool.py\<close>\<close>

text \<open>
  The development embeds the helper functions and the PDF path of the script:
  \<open>create_output_filename\<close>, \<open>snap_rect_expand_and_clamp\<close>, \<open>merge_text_blocks\<close>,
  \<open>extract_images_with_bboxes\<close>, \<open>process_pdf\<close> and \<open>handle_file\<close>.

  Conventions of the embedding.
  \<^item> Coordinates are Python floats, that is IEEE binary64 numbers. A coordinate is
    modelled as a \<open>real\<close>, and every quotient, product, sum and difference that the
    script computes on floats is rounded with \<open>round_double\<close>: to the nearest number
    with a significand of 53 bits, ties to the even significand, with gradual underflow
    down to \<open>1 / 2 ^ 1074\<close>. Comparisons, \<open>min\<close>, \<open>max\<close>, \<open>abs\<close>, \<open>floor\<close> and \<open>ceil\<close> are
    exact on floats. Overflow to infinity and NaN are outside the model.
  \<^item> A dictionary with a fixed set of possible keys is a record of \<open>option\<close> fields:
    \<open>None\<close> is the absent key, so \<open>d["k"]\<close> on an absent key is the branch
    \<open>Inl KeyError\<close> and \<open>d.get("k", v)\<close> is a \<open>case\<close> with the default.
  \<^item> An exception is the left summand of a result type \<open>py_error + 'a\<close>.
  \<^item> In-place mutation of the accumulator block in \<open>merge_text_blocks\<close> is modelled by
    passing the updated block on. This agrees with the script when the input blocks are
    distinct objects with distinct line lists, which is what page extraction returns.
  \<^item> A \<open>char\<close> is a code point below 256; text with other code points is outside the
    model.
\<close>

subsection \<open>Floating-point arithmetic\<close>

text \<open>Rounding a real number to the nearest integer, a tie going to the even one.\<close>

definition round_half_even :: "real \<Rightarrow> int" where
  "round_half_even q =
     (let f = \<lfloor>q\<rfloor>; d = q - of_int f
      in if d < 1 / 2 then f else if 1 / 2 < d then f + 1 else if even f then f else f + 1)"

text \<open>
  The exponent of the last bit of the significand of a binary64 number of the magnitude of
  \<open>x\<close>: 52 places below the leading bit, and never below \<open>-1074\<close>, where the subnormal
  numbers end.
\<close>

definition double_exponent :: "real \<Rightarrow> int" where
  "double_exponent x = max (\<lfloor>log 2 \<bar>x\<bar>\<rfloor> - 52) (- 1074)"

definition round_double :: "real \<Rightarrow> real" where
  "round_double x =
     (if x = 0 then 0
      else of_int (round_half_even (x / 2 powr of_int (double_exponent x)))
           * 2 powr of_int (double_exponent x))"

text \<open>A real number is a double when rounding leaves it as it is.\<close>

definition is_double :: "real \<Rightarrow> bool" where
  "is_double p = (round_double p = p)"

text \<open>The four operations of Python on floats.\<close>

definition float_add :: "real \<Rightarrow> real \<Rightarrow> real" where
  "float_add a b = round_double (a + b)"

definition float_sub :: "real \<Rightarrow> real \<Rightarrow> real" where
  "float_sub a b = round_double (a - b)"

definition float_mul :: "real \<Rightarrow> real \<Rightarrow> real" where
  "float_mul a b = round_double (a * b)"

definition float_div :: "real \<Rightarrow> real \<Rightarrow> real" where
  "float_div a b = round_double (a / b)"

text \<open>The doubles that the literals \<open>0.98\<close> and \<open>1.1\<close> denote.\<close>

definition literal_0_98 :: real where
  "literal_0_98 = 2206763817411543 / 2 ^ 51"

definition literal_1_1 :: real where
  "literal_1_1 = 2476979795053773 / 2 ^ 51"

subsection \<open>Data model\<close>

datatype py_error =
  ZeroDivisionError | KeyError | TypeError | ValueError | FileNotFoundError | OSError

text \<open>\<open>fitz.Rect\<close>: four coordinates; the constructor does not reorder them.\<close>

record rect =
  x0 :: real
  y0 :: real
  x1 :: real
  y1 :: real

text \<open>
  \<open>Rect.width\<close> and \<open>Rect.height\<close> of the rendering library: the extent, and zero for a
  rectangle whose corners are swapped.
\<close>

definition width :: "rect \<Rightarrow> real" where
  "width r = max 0 (float_sub (x1 r) (x0 r))"

definition height :: "rect \<Rightarrow> real" where
  "height r = max 0 (float_sub (y1 r) (y0 r))"

text \<open>
  The spec's invariant of a rectangle, and containment in another rectangle: both corners
  are points of the other rectangle.
\<close>

definition valid_rect :: "rect \<Rightarrow> bool" where
  "valid_rect r = (x0 r \<le> x1 r \<and> y0 r \<le> y1 r)"

definition contained_in :: "rect \<Rightarrow> rect \<Rightarrow> bool" where
  "contained_in r p =
     (x0 p \<le> x0 r \<and> x0 r \<le> x1 p \<and> x0 p \<le> x1 r \<and> x1 r \<le> x1 p
      \<and> y0 p \<le> y0 r \<and> y0 r \<le> y1 p \<and> y0 p \<le> y1 r \<and> y1 r \<le> y1 p)"

subsection \<open>\<open>snap_rect_expand_and_clamp\<close> (lines 19--34)\<close>

text \<open>
  \<^verbatim>\<open>math.floor(rect.x0 / grid_size) * grid_size\<close> raises \<open>ZeroDivisionError\<close> for a zero
  grid size. Otherwise the quotient is a float, \<open>math.floor\<close> and \<open>math.ceil\<close> give an
  integer, and the product with the grid size reaches \<open>fitz.Rect\<close> as a float: for a
  float grid size the product is rounded, for an integer grid size it is exact and is
  rounded when the rectangle is built. The snapped rectangle is then clamped edge by edge
  with \<open>max\<close> on the lower edges and \<open>min\<close> on the upper edges.
\<close>

definition snap_rect_expand_and_clamp :: "rect \<Rightarrow> rect \<Rightarrow> real \<Rightarrow> py_error + rect" where
  "snap_rect_expand_and_clamp r page_rect grid_size =
     (if grid_size = 0 then Inl ZeroDivisionError
      else
        let snapped = \<lparr>x0 = float_mul (of_int \<lfloor>float_div (x0 r) grid_size\<rfloor>) grid_size,
                       y0 = float_mul (of_int \<lfloor>float_div (y0 r) grid_size\<rfloor>) grid_size,
                       x1 = float_mul (of_int \<lceil>float_div (x1 r) grid_size\<rceil>) grid_size,
                       y1 = float_mul (of_int \<lceil>float_div (y1 r) grid_size\<rceil>) grid_size\<rparr>;
            clamped = \<lparr>x0 = max (x0 snapped) (x0 page_rect),
                       y0 = max (y0 snapped) (y0 page_rect),
                       x1 = min (x1 snapped) (x1 page_rect),
                       y1 = min (y1 snapped) (y1 page_rect)\<rparr>
        in Inr clamped)"

text \<open>
  A coordinate of a page rectangle in the range where quotients by a grid size neither
  overflow nor underflow: a double of magnitude at most \<open>2 ^ 50\<close> that is zero or of
  magnitude at least \<open>1 / 2 ^ 900\<close>.
\<close>

definition page_coordinate :: "real \<Rightarrow> bool" where
  "page_coordinate p = (is_double p \<and> \<bar>p\<bar> \<le> 2 ^ 50 \<and> (p = 0 \<or> 1 / 2 ^ 900 \<le> \<bar>p\<bar>))"

subsection \<open>Text blocks of a page (the \<open>"dict"\<close> text extraction)\<close>

text \<open>
  A span, a line and a block are dictionaries. The script reads the keys \<open>"text"\<close>,
  \<open>"origin"\<close>, \<open>"size"\<close> and \<open>"bbox"\<close> of a span, \<open>"spans"\<close> of a line, and \<open>"type"\<close>,
  \<open>"bbox"\<close> and \<open>"lines"\<close> of a block.
\<close>

record text_span =
  span_text :: "string option"
  span_origin :: "(real \<times> real) option"
  span_size :: "real option"
  span_bbox :: "rect option"

record text_line =
  spans :: "text_span list option"

record block =
  type :: "int option"
  bbox :: "rect option"
  lines :: "text_line list option"

text \<open>\<^verbatim>\<open>block.get("lines", [])\<close>\<close>

definition get_lines :: "block \<Rightarrow> text_line list" where
  "get_lines b = (case lines b of None \<Rightarrow> [] | Some ls \<Rightarrow> ls)"

subsection \<open>\<open>merge_text_blocks\<close> (lines 36--71)\<close>

text \<open>
  Line 38 keeps the blocks whose \<open>"type"\<close> is \<open>0\<close> and sorts them with the key
  \<^verbatim>\<open>b["bbox"][1]\<close>. \<open>sorted\<close> computes the key of every element first, so a block
  without \<open>"bbox"\<close> raises \<open>KeyError\<close> before anything is ordered; the sort itself is
  stable, as \<open>sort_key\<close> is.
\<close>

fun sort_keys :: "block list \<Rightarrow> py_error + (real \<times> block) list" where
  "sort_keys [] = Inr []"
| "sort_keys (b # bs) =
     (case bbox b of
        None \<Rightarrow> Inl KeyError
      | Some r \<Rightarrow>
          (case sort_keys bs of
             Inl e \<Rightarrow> Inl e
           | Inr ks \<Rightarrow> Inr ((y0 r, b) # ks)))"

definition sorted_text_blocks :: "block list \<Rightarrow> py_error + block list" where
  "sorted_text_blocks blocks =
     (case sort_keys (filter (\<lambda>b. type b = Some 0) blocks) of
        Inl e \<Rightarrow> Inl e
      | Inr ks \<Rightarrow> Inr (map snd (sort_key fst ks)))"

text \<open>
  The loop of lines 40--66 with its two variables \<open>current_block\<close> and \<open>merged\<close>, and
  lines 68--71 at the end of the list. Every block that reaches the loop has the key
  \<open>"type"\<close>, so \<^verbatim>\<open>if current_block:\<close> (a non-empty dictionary) is the test for
  \<open>Some\<close>.
\<close>

fun merge_loop :: "real \<Rightarrow> block list \<Rightarrow> block option \<Rightarrow> block list \<Rightarrow> py_error + block list" where
  "merge_loop vertical_threshold [] current_block merged =
     Inr (case current_block of None \<Rightarrow> merged | Some c \<Rightarrow> merged @ [c])"
| "merge_loop vertical_threshold (b # rest) current_block merged =
     (case bbox b of
        None \<Rightarrow> Inl KeyError
      | Some r \<Rightarrow>
          (case current_block of
             None \<Rightarrow> merge_loop vertical_threshold rest (Some b) merged
           | Some c \<Rightarrow>
               (case bbox c of
                  None \<Rightarrow> Inl KeyError
                | Some current_rect \<Rightarrow>
                    let vertical_gap = float_sub (y0 r) (y1 current_rect) in
                    if vertical_gap \<le> vertical_threshold
                       \<and> \<bar>float_sub (x0 r) (x0 current_rect)\<bar> < 5
                    then
                      (case lines c of
                         None \<Rightarrow> Inl KeyError
                       | Some ls \<Rightarrow>
                           merge_loop vertical_threshold rest
                             (Some (c\<lparr>bbox := Some \<lparr>x0 = min (x0 current_rect) (x0 r),
                                                      y0 = min (y0 current_rect) (y0 r),
                                                      x1 = max (x1 current_rect) (x1 r),
                                                      y1 = max (y1 current_rect) (y1 r)\<rparr>,
                                      lines := Some (ls @ get_lines b)\<rparr>))
                             merged)
                    else merge_loop vertical_threshold rest (Some b) (merged @ [c]))))"

definition merge_text_blocks :: "block list \<Rightarrow> real \<Rightarrow> py_error + block list" where
  "merge_text_blocks blocks vertical_threshold =
     (case sorted_text_blocks blocks of
        Inl e \<Rightarrow> Inl e
      | Inr bs \<Rightarrow> merge_loop vertical_threshold bs None [])"

subsection \<open>The block merger as the specification words it\<close>

text \<open>
  The specification's \<open>TextBlock\<close> is a bounding rectangle with a sequence of lines.
  \<open>raw_block\<close> is the raw text block that extraction returns for it: type \<open>0\<close>, with a
  bounding box and a line list.
\<close>

record text_block =
  tb_bbox :: rect
  tb_lines :: "text_line list"

definition raw_block :: "text_block \<Rightarrow> block" where
  "raw_block tb = \<lparr>type = Some 0, bbox = Some (tb_bbox tb), lines = Some (tb_lines tb)\<rparr>"

definition rect_union :: "rect \<Rightarrow> rect \<Rightarrow> rect" where
  "rect_union a b =
     \<lparr>x0 = min (x0 a) (x0 b), y0 = min (y0 a) (y0 b),
      x1 = max (x1 a) (x1 b), y1 = max (y1 a) (y1 b)\<rparr>"

text \<open>
  The reference algorithm of the specification: sort by \<open>y0\<close> ascending; keep one
  accumulator; merge the next block when \<open>next.y0 - current.y1 \<le> threshold\<close> and
  \<open>|next.x0 - current.x0| < 5\<close>, growing the rectangle to the union and appending the lines;
  otherwise emit the accumulator and start a new one; emit the last accumulator. The two
  differences are differences of floats, as every difference of coordinates is.
\<close>

definition merges_with :: "real \<Rightarrow> text_block \<Rightarrow> text_block \<Rightarrow> bool" where
  "merges_with threshold current nxt =
     (float_sub (y0 (tb_bbox nxt)) (y1 (tb_bbox current)) \<le> threshold
      \<and> \<bar>float_sub (x0 (tb_bbox nxt)) (x0 (tb_bbox current))\<bar> < 5)"

fun reference_fold :: "real \<Rightarrow> text_block \<Rightarrow> text_block list \<Rightarrow> text_block list" where
  "reference_fold threshold acc [] = [acc]"
| "reference_fold threshold acc (n # ns) =
     (if merges_with threshold acc n
      then reference_fold threshold
             \<lparr>tb_bbox = rect_union (tb_bbox acc) (tb_bbox n),
              tb_lines = tb_lines acc @ tb_lines n\<rparr> ns
      else acc # reference_fold threshold n ns)"

definition merge_reference :: "text_block list \<Rightarrow> real \<Rightarrow> text_block list" where
  "merge_reference tbs threshold =
     (case sort_key (\<lambda>b. y0 (tb_bbox b)) tbs of
        [] \<Rightarrow> []
      | b # bs \<Rightarrow> reference_fold threshold b bs)"

subsection \<open>\<open>extract_images_with_bboxes\<close> (lines 73--106)\<close>

text \<open>
  The argument of \<^verbatim>\<open>page.get_image_bbox\<close>. The library takes an item of the list
  \<^verbatim>\<open>page.get_images(full=True)\<close>, named here by its xref, or the name of such an item,
  and raises \<open>ValueError\<close> for any other argument; line 79 passes the bare integer
  \<^verbatim>\<open>img[0]\<close>.
\<close>

datatype image_arg = ImageItem int | ImageXref int

text \<open>
  What the script reads of a page: \<open>page.rect\<close>, the blocks of
  \<^verbatim>\<open>page.get_text("dict")\<close>, the xref (entry \<open>0\<close>) of every item of
  \<^verbatim>\<open>page.get_images(full=True)\<close>, the result of \<^verbatim>\<open>page.get_image_bbox\<close> for an
  argument (\<open>None\<close> when the call raises), and whether the body of the \<open>try\<close> of lines
  210--213 (\<^verbatim>\<open>fitz.Pixmap(doc, xref)\<close> followed by \<^verbatim>\<open>page.insert_image(r, ...)\<close>)
  returns.
\<close>

record page =
  page_rect :: rect
  get_text_blocks :: "block list"
  get_images :: "int list"
  get_image_bbox :: "image_arg \<Rightarrow> rect option"
  insert_ok :: "rect \<Rightarrow> int \<Rightarrow> bool"

record image_ref =
  xref :: int
  image_bbox :: rect

text \<open>
  The loop over the image items with its accumulator \<open>images\<close>. Every exception inside
  the \<open>try\<close> leads to \<open>continue\<close>; the only call that can raise is \<open>get_image_bbox\<close>.
\<close>

fun extract_loop :: "page \<Rightarrow> int list \<Rightarrow> image_ref list \<Rightarrow> image_ref list" where
  "extract_loop page [] images = images"
| "extract_loop page (xr # rest) images =
     (case get_image_bbox page (ImageXref xr) of
        None \<Rightarrow> extract_loop page rest images
      | Some b \<Rightarrow>
          if width b < 10 \<or> height b < 10 then extract_loop page rest images
          else
            let near_full_width = width b > float_mul (width (page_rect page)) literal_0_98;
                near_full_height = height b > float_mul (height (page_rect page)) literal_0_98;
                aligned_left = \<bar>float_sub (x0 b) (x0 (page_rect page))\<bar> < 1;
                aligned_right = \<bar>float_sub (x1 b) (x1 (page_rect page))\<bar> < 1;
                aligned_top = \<bar>float_sub (y0 b) (y0 (page_rect page))\<bar> < 1;
                aligned_bottom = \<bar>float_sub (y1 b) (y1 (page_rect page))\<bar> < 1
            in
              if (near_full_width \<and> (aligned_top \<or> aligned_bottom))
                 \<or> (near_full_height \<and> (aligned_left \<or> aligned_right))
                 \<or> (near_full_width \<and> near_full_height \<and> aligned_left \<and> aligned_top)
              then extract_loop page rest images
              else extract_loop page rest (images @ [\<lparr>xref = xr, image_bbox = b\<rparr>]))"

definition extract_images_with_bboxes :: "page \<Rightarrow> image_ref list" where
  "extract_images_with_bboxes page = extract_loop page (get_images page) []"

text \<open>
  The two filters of lines 81--101 as one test on a placement rectangle: the image is
  kept when neither the size filter nor the background filter skips it.
\<close>

definition keeps_image :: "rect \<Rightarrow> rect \<Rightarrow> bool" where
  "keeps_image pr b =
     (\<not> (width b < 10 \<or> height b < 10)
      \<and> \<not> (let near_full_width = width b > float_mul (width pr) literal_0_98;
                near_full_height = height b > float_mul (height pr) literal_0_98;
                aligned_left = \<bar>float_sub (x0 b) (x0 pr)\<bar> < 1;
                aligned_right = \<bar>float_sub (x1 b) (x1 pr)\<bar> < 1;
                aligned_top = \<bar>float_sub (y0 b) (y0 pr)\<bar> < 1;
                aligned_bottom = \<bar>float_sub (y1 b) (y1 pr)\<bar> < 1
            in (near_full_width \<and> (aligned_top \<or> aligned_bottom))
               \<or> (near_full_height \<and> (aligned_left \<or> aligned_right))
               \<or> (near_full_width \<and> near_full_height \<and> aligned_left \<and> aligned_top)))"

subsection \<open>Output naming (lines 15--17 and 268)\<close>

text \<open>
  \<open>os.path.splitext\<close> for POSIX paths: the extension starts at the last dot, provided
  that dot comes after the last slash and some character between the slash and the dot
  is not a dot. \<open>rfind\<close> is \<open>str.rfind\<close> for one character, \<open>-1\<close> when it is absent.
\<close>

fun rfind :: "string \<Rightarrow> char \<Rightarrow> int" where
  "rfind [] c = - 1"
| "rfind (d # ds) c =
     (let i = rfind ds c in if 0 \<le> i then i + 1 else if d = c then 0 else - 1)"

definition splitext :: "string \<Rightarrow> string \<times> string" where
  "splitext p =
     (let sepIndex = rfind p (CHR ''/'');
          dotIndex = rfind p (CHR ''.'')
      in if dotIndex > sepIndex
            \<and> list_ex (\<lambda>c. c \<noteq> CHR ''.'')
                 (take (nat (dotIndex - (sepIndex + 1))) (drop (nat (sepIndex + 1)) p))
         then (take (nat dotIndex) p, drop (nat dotIndex) p)
         else (p, []))"

definition create_output_filename :: "string \<Rightarrow> string" where
  "create_output_filename input_path =
     (let (base, ext) = splitext input_path in base @ ''-Accessible-Copy'' @ ext)"

text \<open>\<open>str.lower\<close> on ASCII letters; every other character is left as it is.\<close>

definition lower_char :: "char \<Rightarrow> char" where
  "lower_char c =
     (case map_of (zip ''ABCDEFGHIJKLMNOPQRSTUVWXYZ'' ''abcdefghijklmnopqrstuvwxyz'') c of
        None \<Rightarrow> c
      | Some d \<Rightarrow> d)"

definition lower :: "string \<Rightarrow> string" where
  "lower s = map lower_char s"

text \<open>
  \<open>str.replace(old, new)\<close>: every occurrence of \<open>old\<close>, found from the left without
  overlap, is replaced; an empty \<open>old\<close> matches before every character and at the end.
\<close>

function replace :: "string \<Rightarrow> string \<Rightarrow> string \<Rightarrow> string" where
  "replace [] old new = (if old = [] then new else [])"
| "replace (c # cs) old new =
     (if old = [] then new @ c # replace cs old new
      else if take (length old) (c # cs) = old
           then new @ replace (drop (length old) (c # cs)) old new
           else c # replace cs old new)"
  by pat_completeness auto
termination
  by (relation "measure (\<lambda>(s, old, new). length s)") auto

subsection \<open>\<open>process_pdf\<close> (lines 182--270)\<close>

text \<open>
  The effects on a page, in the order in which they happen: \<open>draw_rect\<close> with its colour,
  fill, width and overlay flag (width \<open>1\<close> and overlay on when the call does not give
  them), \<open>insert_image\<close> of the pixmap of an xref into a rectangle, \<open>insert_text\<close> at a
  point with font name, size and colour, and the message printed when an image cannot be
  inserted.
\<close>

type_synonym colour = "real \<times> real \<times> real"

datatype draw_op =
    DrawRect rect "colour option" "colour option" real bool
  | InsertImage rect int
  | InsertText "real \<times> real" string string real colour
  | PrintError int

text \<open>
  \<open>str.strip()\<close>: the white space of Python is removed at both ends. Below 256 these
  are the code points 9 to 13, 28 to 32, 133 and 160.
\<close>

definition is_space :: "char \<Rightarrow> bool" where
  "is_space c =
     (c \<in> set [CHR '' '', CHR 0x09, CHR 0x0A, CHR 0x0B, CHR 0x0C, CHR 0x0D,
               CHR 0x1C, CHR 0x1D, CHR 0x1E, CHR 0x1F, CHR 0x85, CHR 0xA0])"

definition strip :: "string \<Rightarrow> string" where
  "strip s = rev (dropWhile is_space (rev (dropWhile is_space s)))"

definition margin :: real where
  "margin = 3"

text \<open>
  Lines 208--216: the image items are tried in order; a failure inside the \<open>try\<close> prints
  a message and goes on to the next item, the first success ends the loop.
\<close>

fun insert_first_image :: "page \<Rightarrow> rect \<Rightarrow> int list \<Rightarrow> draw_op list" where
  "insert_first_image page r [] = []"
| "insert_first_image page r (xr # rest) =
     (if insert_ok page r xr then [InsertImage r xr]
      else PrintError xr # insert_first_image page r rest)"

text \<open>Step 3 (lines 199--216): the raw image blocks of the page, in order.\<close>

fun image_layer :: "page \<Rightarrow> block list \<Rightarrow> draw_op list" where
  "image_layer page [] = []"
| "image_layer page (b # rest) =
     (case bbox b of
        None \<Rightarrow> image_layer page rest
      | Some r \<Rightarrow>
          if type b \<noteq> Some 1 then image_layer page rest
          else DrawRect r (Some (0.99, 0.99, 0.99)) None 1 True
               # insert_first_image page r (get_images page)
               @ image_layer page rest)"

text \<open>
  A loop whose body may raise: the effects of the elements are collected in order and the
  first exception ends the loop.
\<close>

fun for_each :: "('a \<Rightarrow> py_error + draw_op list) \<Rightarrow> 'a list \<Rightarrow> py_error + draw_op list" where
  "for_each body [] = Inr []"
| "for_each body (x # xs) =
     (case body x of
        Inl e \<Rightarrow> Inl e
      | Inr ops \<Rightarrow>
          (case for_each body xs of
             Inl e \<Rightarrow> Inl e
           | Inr ops' \<Rightarrow> Inr (ops @ ops')))"

text \<open>
  Lines 241--266, one span: unpacking an absent \<open>"origin"\<close> raises \<open>TypeError\<close>, an absent
  \<open>"bbox"\<close> raises \<open>KeyError\<close>.
\<close>

definition draw_span :: "text_span \<Rightarrow> py_error + draw_op list" where
  "draw_span sp =
     (let text = strip (case span_text sp of None \<Rightarrow> [] | Some s \<Rightarrow> s) in
      if text = [] then Inr []
      else
        (case span_origin sp of
           None \<Rightarrow> Inl TypeError
         | Some (x, y) \<Rightarrow>
             let font_size = (case span_size sp of None \<Rightarrow> 10 | Some z \<Rightarrow> z) in
             (case span_bbox sp of
                None \<Rightarrow> Inl KeyError
              | Some sb \<Rightarrow>
                  Inr [DrawRect \<lparr>x0 = float_add (x0 sb) margin, y0 = float_add (y0 sb) margin,
                                  x1 = float_add (x1 sb) margin, y1 = float_add (y1 sb) margin\<rparr>
                         None (Some (1, 1, 1)) 1 True,
                       InsertText (float_add x margin, float_add y margin) text ''helv''
                         font_size (0, 0, 0)])))"

definition draw_line :: "text_line \<Rightarrow> py_error + draw_op list" where
  "draw_line line = for_each draw_span (case spans line of None \<Rightarrow> [] | Some ss \<Rightarrow> ss)"

text \<open>Lines 219--266, one block of the text layer.\<close>

definition draw_block :: "block \<Rightarrow> py_error + draw_op list" where
  "draw_block b =
     (case bbox b of
        None \<Rightarrow> Inr []
      | Some r \<Rightarrow>
          if type b \<noteq> Some 0 then Inr []
          else if height r < 5 \<or> width r < 10 then Inr []
          else
            let inset_r = \<lparr>x0 = float_add (x0 r) margin, y0 = float_add (y0 r) margin,
                           x1 = float_sub (x1 r) margin, y1 = float_sub (y1 r) margin\<rparr> in
            (case for_each draw_line (get_lines b) of
               Inl e \<Rightarrow> Inl e
             | Inr ops \<Rightarrow> Inr (DrawRect inset_r (Some (0.9, 0.9, 0.9)) None 0.5 True # ops)))"

text \<open>
  Lines 187--266, one page: erase, read the blocks and the image items, image layer, text
  layer. The blocks drawn are the blocks as extracted.
\<close>

definition process_page :: "page \<Rightarrow> py_error + draw_op list" where
  "process_page page =
     (let blocks = get_text_blocks page in
      case for_each draw_block blocks of
        Inl e \<Rightarrow> Inl e
      | Inr text_ops \<Rightarrow>
          Inr (DrawRect (page_rect page) (Some (1, 1, 1)) (Some (1, 1, 1)) 1 True
               # image_layer page blocks @ text_ops))"

fun process_pages :: "page list \<Rightarrow> py_error + draw_op list list" where
  "process_pages [] = Inr []"
| "process_pages (pg # rest) =
     (case process_page pg of
        Inl e \<Rightarrow> Inl e
      | Inr ops \<Rightarrow>
          (case process_pages rest of
             Inl e \<Rightarrow> Inl e
           | Inr opss \<Rightarrow> Inr (ops # opss)))"

text \<open>
  The file system as the conversions see it: the pages of the PDF file at a path
  (\<open>None\<close>: \<open>fitz.open\<close> raises), whether the flow document at a path can be opened, and
  whether a file can be written at a path.
\<close>

record file_system =
  open_pdf :: "string \<Rightarrow> page list option"
  opens_flow :: "string \<Rightarrow> bool"
  writable :: "string \<Rightarrow> bool"

text \<open>
  \<open>process_pdf\<close>: the file is opened, every page is rewritten, and \<open>doc.save\<close> is called
  with the path of line 268. \<open>doc.save\<close> raises \<open>ValueError\<close> when it is given the path
  the document was opened from (a save to the original must be incremental) and when the
  document has no page; it raises as well when the file cannot be written. The result
  records the pages and the path of the file written.
\<close>

record pdf_output =
  saved_pages :: "draw_op list list"
  saved_path :: string

definition process_pdf ::
  "file_system \<Rightarrow> string \<Rightarrow> real \<Rightarrow> real \<Rightarrow> py_error + pdf_output" where
  "process_pdf fs input_path grid_size merge_threshold =
     (case open_pdf fs input_path of
        None \<Rightarrow> Inl FileNotFoundError
      | Some doc \<Rightarrow>
          (case process_pages doc of
             Inl e \<Rightarrow> Inl e
           | Inr ps \<Rightarrow>
               let output_path = replace input_path ''.pdf'' ''-Accessible-Copy.pdf'' in
               if output_path = input_path \<or> doc = [] then Inl ValueError
               else if \<not> writable fs output_path then Inl OSError
               else Inr \<lparr>saved_pages = ps, saved_path = output_path\<rparr>))"

subsection \<open>\<open>process_docx\<close>, \<open>process_pptx\<close> and \<open>handle_file\<close> (lines 111--178 and 276--288)\<close>

text \<open>
  The two flow formats open the document, recolour its runs and save it under
  \<open>create_output_filename(input_path)\<close>. The recolouring is outside the model; opening
  and saving raise when the file system refuses.
\<close>

definition process_flow :: "file_system \<Rightarrow> string \<Rightarrow> py_error + string" where
  "process_flow fs input_path =
     (if \<not> opens_flow fs input_path then Inl FileNotFoundError
      else
        let output_path = create_output_filename input_path in
        if \<not> writable fs output_path then Inl OSError else Inr output_path)"

text \<open>
  \<open>handle_file\<close>: the dispatch on the lower-cased extension; every exception of a
  processor ends in the error dialog.
\<close>

datatype outcome =
    SavedDocx string
  | SavedPptx string
  | SavedPdf pdf_output
  | ErrorDialog py_error
  | UnsupportedDialog string

definition handle_file ::
  "file_system \<Rightarrow> string \<Rightarrow> real \<Rightarrow> real \<Rightarrow> outcome" where
  "handle_file fs file_path grid_size merge_threshold =
     (let ext = lower (snd (splitext file_path)) in
      if ext = ''.docx'' then
        (case process_flow fs file_path of
           Inl e \<Rightarrow> ErrorDialog e
         | Inr p \<Rightarrow> SavedDocx p)
      else if ext = ''.pptx'' then
        (case process_flow fs file_path of
           Inl e \<Rightarrow> ErrorDialog e
         | Inr p \<Rightarrow> SavedPptx p)
      else if ext = ''.pdf'' then
        (case process_pdf fs file_path grid_size merge_threshold of
           Inl e \<Rightarrow> ErrorDialog e
         | Inr out \<Rightarrow> SavedPdf out)
      else UnsupportedDialog ext)"

text \<open>The path of the file that a conversion writes, when it writes one.\<close>

definition written_path :: "outcome \<Rightarrow> string option" where
  "written_path oc =
     (case oc of
        SavedDocx p \<Rightarrow> Some p
      | SavedPptx p \<Rightarrow> Some p
      | SavedPdf out \<Rightarrow> Some (saved_path out)
      | _ \<Rightarrow> None)"

subsection \<open>Image effects and example inputs\<close>






text \<open>A file system with one PDF document at every path, where every file can be written.\<close>

definition one_document :: "page list \<Rightarrow> file_system" where
  "one_document doc = \<lparr>open_pdf = (\<lambda>p. Some doc), opens_flow = (\<lambda>p. True), writable = (\<lambda>p. True)\<rparr>"

text \<open>
  The end-to-end scenario of the specification: one page of 600 by 800 with two text
  blocks, the second 10 units below the first and its left edge 1 unit to the right.
\<close>

definition first_line :: text_line where
  "first_line =
     \<lparr>spans = Some [\<lparr>span_text = Some ''First'', span_origin = Some (50, 140),
                     span_size = Some 12,
                     span_bbox = Some \<lparr>x0 = 50, y0 = 100, x1 = 300, y1 = 150\<rparr>\<rparr>]\<rparr>"

definition second_line :: text_line where
  "second_line =
     \<lparr>spans = Some [\<lparr>span_text = Some ''Second'', span_origin = Some (51, 200),
                     span_size = Some 12,
                     span_bbox = Some \<lparr>x0 = 51, y0 = 160, x1 = 300, y1 = 210\<rparr>\<rparr>]\<rparr>"

definition scenario_page :: page where
  "scenario_page =
     \<lparr>page_rect = \<lparr>x0 = 0, y0 = 0, x1 = 600, y1 = 800\<rparr>,
      get_text_blocks =
        [raw_block \<lparr>tb_bbox = \<lparr>x0 = 50, y0 = 100, x1 = 300, y1 = 150\<rparr>, tb_lines = [first_line]\<rparr>,
         raw_block \<lparr>tb_bbox = \<lparr>x0 = 51, y0 = 160, x1 = 300, y1 = 210\<rparr>, tb_lines = [second_line]\<rparr>],
      get_images = [],
      get_image_bbox = (\<lambda>a. None),
      insert_ok = (\<lambda>r xr. True)\<rparr>"


text \<open>
  A page of 600 by 800 with one image item, of xref \<open>1\<close>, placed in the centre with
  width 200 and height 150. The page answers a bare integer with an exception, as the
  library does.
\<close>

definition centred_image_page :: page where
  "centred_image_page =
     \<lparr>page_rect = \<lparr>x0 = 0, y0 = 0, x1 = 600, y1 = 800\<rparr>,
      get_text_blocks = [],
      get_images = [1],
      get_image_bbox =
        (\<lambda>a. case a of
               ImageItem xr \<Rightarrow> if xr = 1 then Some \<lparr>x0 = 200, y0 = 325, x1 = 400, y1 = 475\<rparr> else None
             | ImageXref xr \<Rightarrow> None),
      insert_ok = (\<lambda>r xr. True)\<rparr>"

section \<open>Properties\<close>

subsection \<open>Rounding\<close>

lemma round_half_even_of_int: "round_half_even (of_int k) = k"
  by (simp add: round_half_even_def)

lemma round_half_even_error: "\<bar>of_int (round_half_even q) - q\<bar> \<le> 1 / 2"
proof -
  have "of_int \<lfloor>q\<rfloor> \<le> q" "q < of_int \<lfloor>q\<rfloor> + 1" by linarith+
  then show ?thesis by (auto simp: round_half_even_def Let_def)
qed

lemma round_double_error:
  "\<bar>round_double x - x\<bar> \<le> 2 powr of_int (double_exponent x) / 2"
proof (cases "x = 0")
  case True
  then show ?thesis by (simp add: round_double_def)
next
  case False
  let ?e = "2 powr of_int (double_exponent x) :: real"
  have pos: "0 < ?e" by simp
  have "\<bar>round_double x - x\<bar> = \<bar>of_int (round_half_even (x / ?e)) - x / ?e\<bar> * ?e"
  proof -
    have "round_double x - x = (of_int (round_half_even (x / ?e)) - x / ?e) * ?e"
      using False pos by (simp add: round_double_def field_simps)
    then show ?thesis using pos by (simp add: abs_mult)
  qed
  also have "\<dots> \<le> (1 / 2) * ?e"
    using round_half_even_error [of "x / ?e"] pos by (intro mult_right_mono) auto
  finally show ?thesis by simp
qed

lemma powr_exponent_le:
  assumes "x \<noteq> 0"
  shows "2 powr of_int \<lfloor>log 2 \<bar>x\<bar>\<rfloor> \<le> \<bar>x\<bar>" and "\<bar>x\<bar> < 2 powr of_int (\<lfloor>log 2 \<bar>x\<bar>\<rfloor> + 1)"
proof -
  from assms have pos: "0 < \<bar>x\<bar>" by simp
  have "of_int \<lfloor>log 2 \<bar>x\<bar>\<rfloor> \<le> log 2 \<bar>x\<bar>" by simp
  then have "2 powr of_int \<lfloor>log 2 \<bar>x\<bar>\<rfloor> \<le> 2 powr log 2 \<bar>x\<bar>" by simp
  with pos show "2 powr of_int \<lfloor>log 2 \<bar>x\<bar>\<rfloor> \<le> \<bar>x\<bar>" by simp
  have "log 2 \<bar>x\<bar> < of_int (\<lfloor>log 2 \<bar>x\<bar>\<rfloor> + 1)" by linarith
  then have "2 powr log 2 \<bar>x\<bar> < 2 powr of_int (\<lfloor>log 2 \<bar>x\<bar>\<rfloor> + 1)" by simp
  with pos show "\<bar>x\<bar> < 2 powr of_int (\<lfloor>log 2 \<bar>x\<bar>\<rfloor> + 1)" by simp
qed

lemma two_powr_int_diff:
  fixes s e :: int
  assumes "e \<le> s"
  shows "2 powr of_int s / 2 powr of_int e = (of_int (2 ^ nat (s - e)) :: real)"
proof -
  have "2 powr of_int s / 2 powr of_int e = (2::real) powr of_int (s - e)"
    by (simp add: powr_diff)
  also have "\<dots> = 2 ^ nat (s - e)"
    using assms powr_real_of_int [of "2::real" "s - e"] by (simp del: of_int_diff)
  finally show ?thesis by simp
qed

lemma double_exponent_le:
  assumes "x = of_int a * 2 powr of_int s" and "\<bar>a\<bar> < 2 ^ 53" and "- 1074 \<le> s" and "x \<noteq> 0"
  shows "double_exponent x \<le> s"
proof -
  have "\<bar>x\<bar> = of_int \<bar>a\<bar> * 2 powr of_int s" using assms(1) by (simp add: abs_mult)
  also have "\<dots> < 2 ^ 53 * 2 powr of_int s"
  proof -
    from assms(2) have "(of_int \<bar>a\<bar> :: real) < of_int (2 ^ 53)" by (simp only: of_int_less_iff)
    then show ?thesis by simp
  qed
  also have "\<dots> = 2 powr of_int (s + 53)"
    by (simp add: powr_add powr_realpow [symmetric])
  finally have ub: "\<bar>x\<bar> < 2 powr of_int (s + 53)" .
  from powr_exponent_le(1) [OF assms(4)] ub
  have "2 powr of_int \<lfloor>log 2 \<bar>x\<bar>\<rfloor> < (2::real) powr of_int (s + 53)" by linarith
  then have "\<lfloor>log 2 \<bar>x\<bar>\<rfloor> < s + 53" by simp
  with assms(3) show ?thesis by (simp add: double_exponent_def)
qed

lemma round_double_fixes:
  assumes "x = of_int a * 2 powr of_int s" and "\<bar>a\<bar> < 2 ^ 53" and "- 1074 \<le> s"
  shows "round_double x = x"
proof (cases "x = 0")
  case True
  then show ?thesis by (simp add: round_double_def)
next
  case False
  let ?e = "double_exponent x"
  from assms False have le: "?e \<le> s" by (rule double_exponent_le)
  have "x / 2 powr of_int ?e = of_int a * (2 powr of_int s / 2 powr of_int ?e)"
    using assms(1) by simp
  also have "\<dots> = of_int (a * 2 ^ nat (s - ?e))"
    by (simp only: two_powr_int_diff [OF le] of_int_mult)
  finally have "round_half_even (x / 2 powr of_int ?e) = a * 2 ^ nat (s - ?e)"
    by (simp only: round_half_even_of_int)
  then have "round_double x = of_int (a * 2 ^ nat (s - ?e)) * 2 powr of_int ?e"
    using False by (simp add: round_double_def)
  also have "\<dots> = of_int a * ((2 powr of_int s / 2 powr of_int ?e) * 2 powr of_int ?e)"
    by (simp only: two_powr_int_diff [OF le] of_int_mult mult.assoc)
  also have "\<dots> = x" using assms(1) by simp
  finally show ?thesis .
qed

lemma round_double_of_int:
  "\<bar>n\<bar> < 2 ^ 53 \<Longrightarrow> round_double (of_int n) = of_int n"
  using round_double_fixes [of "of_int n" n 0] by simp

lemma is_double_repr:
  assumes "is_double p"
  shows "\<exists>a s. p = of_int a * 2 powr of_int s \<and> \<bar>a\<bar> < 2 ^ 53"
proof (cases "p = 0")
  case True
  then have "p = of_int 0 * 2 powr of_int 0 \<and> \<bar>0::int\<bar> < 2 ^ 53" by simp
  then show ?thesis by blast
next
  case False
  let ?e = "double_exponent p"
  let ?a = "round_half_even (p / 2 powr of_int ?e)"
  from assms False have p: "p = of_int ?a * 2 powr of_int ?e"
    by (simp add: is_double_def round_double_def)
  have "\<lfloor>log 2 \<bar>p\<bar>\<rfloor> + 1 \<le> ?e + 53" by (simp add: double_exponent_def)
  then have "(2::real) powr of_int (\<lfloor>log 2 \<bar>p\<bar>\<rfloor> + 1) \<le> 2 powr of_int (?e + 53)"
    by simp
  with powr_exponent_le(2) [OF False] have "\<bar>p\<bar> < 2 powr of_int (?e + 53)" by linarith
  also have "\<dots> = 2 ^ 53 * 2 powr of_int ?e"
    by (simp add: powr_add powr_realpow [symmetric])
  finally have lt: "\<bar>p\<bar> < 2 ^ 53 * 2 powr of_int ?e" .
  from p have "\<bar>p\<bar> = \<bar>of_int ?a * 2 powr of_int ?e\<bar>" by (rule arg_cong)
  also have "\<dots> = of_int \<bar>?a\<bar> * 2 powr of_int ?e" by (simp add: abs_mult)
  finally have "\<bar>p\<bar> = of_int \<bar>?a\<bar> * 2 powr of_int ?e" .
  with lt have "(of_int \<bar>?a\<bar> :: real) * 2 powr of_int ?e < 2 ^ 53 * 2 powr of_int ?e"
    by linarith
  then have "(of_int \<bar>?a\<bar> :: real) < 2 ^ 53" by simp
  then have "(of_int \<bar>?a\<bar> :: real) < of_int (2 ^ 53)" by simp
  then have "\<bar>?a\<bar> < 2 ^ 53" by (simp only: of_int_less_iff)
  with p show ?thesis by blast
qed

lemma integer_gap:
  fixes p :: real
  assumes p: "p = of_int a * 2 powr of_int s" and a: "\<bar>a\<bar> < 2 ^ 53"
    and b: "\<bar>p\<bar> < 2 ^ 53" and ne: "of_int z \<noteq> p"
  shows "\<bar>p\<bar> / 2 ^ 53 < \<bar>of_int z - p\<bar>"
proof (cases "0 \<le> s")
  case True
  then have "p = of_int (a * 2 ^ nat s)"
    using p by (simp add: powr_real_of_int)
  with ne have "z \<noteq> a * 2 ^ nat s" by auto
  then have "1 \<le> \<bar>z - a * 2 ^ nat s\<bar>" by simp
  then have "(1::real) \<le> of_int \<bar>z - a * 2 ^ nat s\<bar>" by (simp only: of_int_1_le_iff)
  then have "1 \<le> \<bar>of_int z - p\<bar>" using \<open>p = of_int (a * 2 ^ nat s)\<close> by simp
  moreover from b have "\<bar>p\<bar> / 2 ^ 53 < 1" by simp
  ultimately show ?thesis by linarith
next
  case False
  then have neg: "s < 0" by simp
  let ?m = "(2::int) ^ nat (- s)"
  define m :: real where "m = of_int ?m"
  have inv: "2 powr of_int s * m = 1"
    using neg by (simp add: m_def powr_real_of_int field_simps)
  have pos: "(0::real) < 2 powr of_int s" by simp
  have pm: "p * m = of_int a"
    using p inv by (simp add: mult.assoc)
  have "z * ?m \<noteq> a"
  proof
    assume "z * ?m = a"
    then have "of_int z * m = (of_int a :: real)" unfolding m_def by (metis of_int_mult)
    with pm have "of_int z * m = p * m" by simp
    moreover from inv have "m \<noteq> 0" by auto
    ultimately have "of_int z = p" by simp
    with ne show False by simp
  qed
  then have "1 \<le> \<bar>z * ?m - a\<bar>" by simp
  then have "(1::real) \<le> of_int \<bar>z * ?m - a\<bar>" by (simp only: of_int_1_le_iff)
  also have "(of_int \<bar>z * ?m - a\<bar> :: real) = \<bar>of_int z * m - p * m\<bar>"
    unfolding m_def pm [unfolded m_def] by simp
  also have "\<dots> = \<bar>of_int z - p\<bar> * \<bar>m\<bar>"
    by (simp add: left_diff_distrib [symmetric] abs_mult)
  also have "\<bar>m\<bar> = m" by (simp add: m_def)
  finally have one: "1 \<le> \<bar>of_int z - p\<bar> * m" .
  have "2 powr of_int s * 1 \<le> 2 powr of_int s * (\<bar>of_int z - p\<bar> * m)"
    using pos one by (intro mult_left_mono) simp_all
  also have "\<dots> = \<bar>of_int z - p\<bar> * (2 powr of_int s * m)" by (simp add: mult_ac)
  also have "\<dots> = \<bar>of_int z - p\<bar>" by (simp only: inv mult_1_right)
  finally have ge: "2 powr of_int s \<le> \<bar>of_int z - p\<bar>" by simp
  have "\<bar>p\<bar> = of_int \<bar>a\<bar> * 2 powr of_int s" using p by (simp add: abs_mult)
  moreover from a have "(of_int \<bar>a\<bar> :: real) < of_int (2 ^ 53)" by (simp only: of_int_less_iff)
  ultimately have "\<bar>p\<bar> < 2 ^ 53 * 2 powr of_int s" using pos by simp
  then have "\<bar>p\<bar> / 2 ^ 53 < 2 powr of_int s" by (simp add: field_simps)
  with ge show ?thesis by linarith
qed

lemma round_double_normal_error:
  assumes "2 powr (- 1022) \<le> \<bar>y\<bar>"
  shows "\<bar>round_double y - y\<bar> \<le> \<bar>y\<bar> / 2 ^ 53"
proof -
  from assms have nz: "y \<noteq> 0" by auto
  have "(2::real) powr (- 1022) \<le> 2 powr log 2 \<bar>y\<bar>" using assms nz by simp
  then have "of_int (- 1022) \<le> log 2 \<bar>y\<bar>" by simp
  then have "(- 1022 :: int) \<le> \<lfloor>log 2 \<bar>y\<bar>\<rfloor>" by (simp only: le_floor_iff)
  then have e: "double_exponent y = \<lfloor>log 2 \<bar>y\<bar>\<rfloor> - 52"
    unfolding double_exponent_def by linarith
  have "(2::real) powr of_int (double_exponent y) = 2 powr of_int \<lfloor>log 2 \<bar>y\<bar>\<rfloor> / 2 powr 52"
    by (simp add: e powr_diff)
  also have "(2::real) powr 52 = 2 ^ 52"
    using powr_realpow [of "2::real" 52] by simp
  finally have "(2::real) powr of_int (double_exponent y) = 2 powr of_int \<lfloor>log 2 \<bar>y\<bar>\<rfloor> / 2 ^ 52" .
  also have "\<dots> \<le> \<bar>y\<bar> / 2 ^ 52"
    using powr_exponent_le(1) [OF nz] by (simp add: divide_right_mono)
  finally have "(2::real) powr of_int (double_exponent y) / 2 \<le> \<bar>y\<bar> / 2 ^ 53" by simp
  with round_double_error [of y] show ?thesis by linarith
qed

lemma snap_down_rounded_le:
  fixes p :: real and gi :: int
  assumes d: "is_double p" and b: "\<bar>p\<bar> < 2 ^ 53" and g: "0 < gi"
    and n: "p = 0 \<or> 2 powr (- 1022) \<le> \<bar>p / of_int gi\<bar>"
  shows "of_int \<lfloor>round_double (p / of_int gi)\<rfloor> * of_int gi \<le> p"
proof (cases "p = 0")
  case True
  then show ?thesis by (simp add: round_double_def)
next
  case False
  define y where "y = p / of_int gi"
  define k where "k = \<lfloor>round_double y\<rfloor>"
  from g have gpos: "(0::real) < of_int gi" by simp
  have yg: "y * of_int gi = p" using gpos by (simp add: y_def)
  show ?thesis
  proof (rule ccontr)
    assume "\<not> of_int \<lfloor>round_double (p / of_int gi)\<rfloor> * of_int gi \<le> p"
    then have gt: "p < of_int k * of_int gi" by (simp add: k_def y_def)
    with yg gpos have "y < of_int k" by (metis mult_less_cancel_right_pos)
    moreover have "of_int k \<le> round_double y" by (simp add: k_def)
    moreover from n False have "\<bar>round_double y - y\<bar> \<le> \<bar>y\<bar> / 2 ^ 53"
      unfolding y_def by (intro round_double_normal_error) simp
    ultimately have "of_int k - y \<le> \<bar>y\<bar> / 2 ^ 53" by linarith
    then have "(of_int k - y) * of_int gi \<le> \<bar>y\<bar> / 2 ^ 53 * of_int gi"
      using gpos by (simp only: mult_le_cancel_right_pos)
    moreover have "\<bar>y\<bar> * of_int gi = \<bar>p\<bar>"
      using gpos yg by (metis abs_mult abs_of_pos)
    ultimately have le: "of_int k * of_int gi - p \<le> \<bar>p\<bar> / 2 ^ 53"
      using yg by (simp add: left_diff_distrib)
    from d obtain a s where rep: "p = of_int a * 2 powr of_int s" "\<bar>a\<bar> < 2 ^ 53"
      using is_double_repr by blast
    from gt have "of_int (k * gi) \<noteq> p" by simp
    from integer_gap [OF rep b this] have "\<bar>p\<bar> / 2 ^ 53 < \<bar>of_int (k * gi) - p\<bar>" .
    with gt le show False by simp
  qed
qed

lemma snap_up_rounded_ge:
  fixes p :: real and gi :: int
  assumes d: "is_double p" and b: "\<bar>p\<bar> < 2 ^ 53" and g: "0 < gi"
    and n: "p = 0 \<or> 2 powr (- 1022) \<le> \<bar>p / of_int gi\<bar>"
  shows "p \<le> of_int \<lceil>round_double (p / of_int gi)\<rceil> * of_int gi"
proof (cases "p = 0")
  case True
  then show ?thesis by (simp add: round_double_def)
next
  case False
  define y where "y = p / of_int gi"
  define k where "k = \<lceil>round_double y\<rceil>"
  from g have gpos: "(0::real) < of_int gi" by simp
  have yg: "y * of_int gi = p" using gpos by (simp add: y_def)
  show ?thesis
  proof (rule ccontr)
    assume "\<not> p \<le> of_int \<lceil>round_double (p / of_int gi)\<rceil> * of_int gi"
    then have lt: "of_int k * of_int gi < p" by (simp add: k_def y_def)
    with yg gpos have "of_int k < y" by (metis mult_less_cancel_right_pos)
    moreover have "round_double y \<le> of_int k" by (simp add: k_def)
    moreover from n False have "\<bar>round_double y - y\<bar> \<le> \<bar>y\<bar> / 2 ^ 53"
      unfolding y_def by (intro round_double_normal_error) simp
    ultimately have "y - of_int k \<le> \<bar>y\<bar> / 2 ^ 53" by linarith
    then have "(y - of_int k) * of_int gi \<le> \<bar>y\<bar> / 2 ^ 53 * of_int gi"
      using gpos by (simp only: mult_le_cancel_right_pos)
    moreover have "\<bar>y\<bar> * of_int gi = \<bar>p\<bar>"
      using gpos yg by (metis abs_mult abs_of_pos)
    ultimately have le: "p - of_int k * of_int gi \<le> \<bar>p\<bar> / 2 ^ 53"
      using yg by (simp add: left_diff_distrib)
    from d obtain a s where rep: "p = of_int a * 2 powr of_int s" "\<bar>a\<bar> < 2 ^ 53"
      using is_double_repr by blast
    from lt have "of_int (k * gi) \<noteq> p" by simp
    from integer_gap [OF rep b this] have "\<bar>p\<bar> / 2 ^ 53 < \<bar>of_int (k * gi) - p\<bar>" .
    with lt le show False by simp
  qed
qed

lemma round_double_numeral:
  "numeral k < (2::int) ^ 53 \<Longrightarrow> round_double (numeral k) = numeral k"
  using round_double_of_int [of "numeral k"] by simp

lemma round_double_zero_one: "round_double 0 = 0" "round_double 1 = 1"
  using round_double_of_int [of 0] round_double_of_int [of 1] by simp_all

lemma round_double_scaled:
  fixes k :: nat
  assumes lo: "2 ^ 52 \<le> \<bar>x\<bar> * 2 ^ k" and hi: "\<bar>x\<bar> * 2 ^ k < 2 ^ 53" and k: "k \<le> 1074"
  shows "round_double x = of_int (round_half_even (x * 2 ^ k)) / 2 ^ k"
proof -
  from lo have nz: "x \<noteq> 0" by auto
  define c :: real where "c = 2 ^ k"
  have cpos: "0 < c" by (simp add: c_def)
  have pk: "(2::real) powr (- real k) = 1 / c"
    using powr_minus [of "2::real" "real k"] powr_realpow [of "2::real" k]
    by (simp add: c_def field_simps)
  have "(2::real) powr (52 - real k) = 2 powr 52 * 2 powr (- real k)"
    using powr_add [of "2::real" 52 "- real k"] by simp
  also have "(2::real) powr 52 = 2 ^ 52" using powr_realpow [of "2::real" 52] by simp
  finally have p52: "(2::real) powr (52 - real k) = 2 ^ 52 / c" by (simp only: pk) simp
  have "(2::real) powr (53 - real k) = 2 powr 53 * 2 powr (- real k)"
    using powr_add [of "2::real" 53 "- real k"] by simp
  also have "(2::real) powr 53 = 2 ^ 53" using powr_realpow [of "2::real" 53] by simp
  finally have p53: "(2::real) powr (53 - real k) = 2 ^ 53 / c" by (simp only: pk) simp
  from lo cpos have l: "2 powr (52 - real k) \<le> \<bar>x\<bar>"
    unfolding p52 c_def [symmetric] by (simp only: pos_divide_le_eq)
  from hi cpos have h: "\<bar>x\<bar> < 2 powr (53 - real k)"
    unfolding p53 c_def [symmetric] by (simp only: pos_less_divide_eq)
  from nz have "0 < \<bar>x\<bar>" by simp
  then have "\<lfloor>log 2 \<bar>x\<bar>\<rfloor> = 52 - int k"
    using l h floor_log_eq_powr_iff [of "\<bar>x\<bar>" 2 "52 - int k"] by (simp add: algebra_simps)
  with k have e: "double_exponent x = - int k" by (simp add: double_exponent_def)
  have "(2::real) powr of_int (- int k) = 1 / c" using pk by simp
  then have "round_double x = of_int (round_half_even (x / (1 / c))) * (1 / c)"
    using nz by (simp only: round_double_def e if_False)
  then show ?thesis by (simp add: c_def)
qed

lemma double_exponent_powr_le:
  assumes "y \<noteq> 0"
  shows "2 powr of_int (double_exponent y) \<le> \<bar>y\<bar> + 1"
proof (cases "- 1074 \<le> \<lfloor>log 2 \<bar>y\<bar>\<rfloor> - 52")
  case True
  then have "double_exponent y \<le> \<lfloor>log 2 \<bar>y\<bar>\<rfloor>" by (simp add: double_exponent_def)
  then have "(2::real) powr of_int (double_exponent y) \<le> 2 powr of_int \<lfloor>log 2 \<bar>y\<bar>\<rfloor>"
    by simp
  with powr_exponent_le(1) [OF assms] show ?thesis by linarith
next
  case False
  then have "double_exponent y = - 1074" by (simp add: double_exponent_def)
  moreover have "(2::real) powr (- 1074) \<le> 2 powr 0"
    by (rule powr_mono) simp_all
  ultimately have "(2::real) powr of_int (double_exponent y) \<le> 1" by simp
  then show ?thesis by linarith
qed

lemma round_double_abs_le: "\<bar>round_double y\<bar> \<le> 2 * \<bar>y\<bar> + 1"
proof (cases "y = 0")
  case True
  then show ?thesis by (simp add: round_double_def)
next
  case False
  from round_double_error [of y] double_exponent_powr_le [OF False]
  show ?thesis by linarith
qed

lemma snapped_integer_bound:
  fixes x :: real and gi :: int
  assumes x: "\<bar>x\<bar> \<le> 2 ^ 50" and g: "0 < gi" "gi \<le> 2 ^ 50"
    and n: "n = \<lfloor>round_double (x / of_int gi)\<rfloor> \<or> n = \<lceil>round_double (x / of_int gi)\<rceil>"
  shows "\<bar>n * gi\<bar> < 2 ^ 53" and "\<bar>n\<bar> < 2 ^ 53"
proof -
  define y where "y = x / of_int gi"
  from g have gpos: "(0::real) < of_int gi" and g1: "(1::real) \<le> of_int gi" by simp_all
  have yg: "\<bar>y\<bar> * of_int gi = \<bar>x\<bar>" using gpos by (simp add: y_def)
  from n have "\<bar>of_int n :: real\<bar> \<le> \<bar>round_double y\<bar> + 1"
    unfolding y_def [symmetric] by (elim disjE) (simp_all, linarith+)
  with round_double_abs_le [of y] have nb: "\<bar>of_int n :: real\<bar> \<le> 2 * \<bar>y\<bar> + 2" by linarith
  then have "\<bar>of_int n :: real\<bar> * of_int gi \<le> (2 * \<bar>y\<bar> + 2) * of_int gi"
    using gpos by (simp only: mult_le_cancel_right_pos)
  also have "\<dots> = 2 * \<bar>x\<bar> + 2 * of_int gi" using yg by (simp add: algebra_simps)
  also have "\<dots> \<le> 2 * 2 ^ 50 + 2 * 2 ^ 50"
  proof -
    from g(2) have "(of_int gi :: real) \<le> of_int (2 ^ 50)" by (simp only: of_int_le_iff)
    with x show ?thesis by simp
  qed
  finally have r: "\<bar>of_int n :: real\<bar> * of_int gi < 2 ^ 53" by simp
  have "(of_int \<bar>n * gi\<bar> :: real) = \<bar>of_int n\<bar> * of_int gi"
    using gpos by (simp add: abs_mult)
  with r have "(of_int \<bar>n * gi\<bar> :: real) < of_int (2 ^ 53)" by simp
  then show a: "\<bar>n * gi\<bar> < 2 ^ 53" by (simp only: of_int_less_iff)
  from g(1) have "\<bar>n\<bar> \<le> \<bar>n\<bar> * gi" by (simp add: mult_le_cancel_left1)
  also have "\<dots> = \<bar>n * gi\<bar>" using g(1) by (simp add: abs_mult)
  finally show "\<bar>n\<bar> < 2 ^ 53" using a by simp
qed

lemma float_mul_snapped:
  fixes x :: real and gi :: int
  assumes "\<bar>x\<bar> \<le> 2 ^ 50" and "0 < gi" and "gi \<le> 2 ^ 50"
  shows "float_mul (of_int \<lfloor>float_div x (of_int gi)\<rfloor>) (of_int gi)
         = of_int (\<lfloor>float_div x (of_int gi)\<rfloor> * gi)"
    and "float_mul (of_int \<lceil>float_div x (of_int gi)\<rceil>) (of_int gi)
         = of_int (\<lceil>float_div x (of_int gi)\<rceil> * gi)"
  using snapped_integer_bound(1) [OF assms, of "\<lfloor>round_double (x / of_int gi)\<rfloor>"]
    snapped_integer_bound(1) [OF assms, of "\<lceil>round_double (x / of_int gi)\<rceil>"]
    round_double_of_int
  by (simp_all add: float_mul_def float_div_def flip: of_int_mult)

lemma float_div_snapped:
  fixes gi n :: int
  assumes "0 < gi" and "\<bar>n\<bar> < 2 ^ 53"
  shows "float_div (of_int (n * gi)) (of_int gi) = of_int n"
  using assms round_double_of_int [of n] by (simp add: float_div_def)

lemma page_coordinate_quotient:
  fixes gi :: int
  assumes "page_coordinate p" and "0 < gi" and "gi \<le> 2 ^ 50"
  shows "p = 0 \<or> 2 powr (- 1022) \<le> \<bar>p / of_int gi\<bar>"
proof (cases "p = 0")
  case True
  then show ?thesis by simp
next
  case False
  with assms(1) have lo: "1 / 2 ^ 900 \<le> \<bar>p\<bar>" by (simp add: page_coordinate_def)
  from assms(2) have gpos: "(0::real) < of_int gi" by simp
  from assms(3) have "(of_int gi :: real) \<le> of_int (2 ^ 50)" by (simp only: of_int_le_iff)
  then have gle: "(of_int gi :: real) \<le> 2 ^ 50" by simp
  have "(2::real) powr (- 1022) = 1 / 2 ^ 1022"
    using powr_minus [of "2::real" 1022] powr_realpow [of "2::real" 1022]
    by (simp add: field_simps)
  also have "\<dots> \<le> (1 / 2 ^ 900) / 2 ^ 50" by simp
  also have "\<dots> \<le> \<bar>p\<bar> / 2 ^ 50" using lo by (simp only: divide_right_mono zero_le_power zero_le_numeral)
  also have "\<dots> \<le> \<bar>p\<bar> / of_int gi"
    using gpos gle by (intro divide_left_mono) simp_all
  finally show ?thesis using gpos by simp
qed

lemma lower_edge_fixed:
  fixes x p :: real and gi :: int
  assumes x: "\<bar>x\<bar> \<le> 2 ^ 50" and g: "0 < gi" "gi \<le> 2 ^ 50" and p: "page_coordinate p"
  shows "max (float_mul (of_int \<lfloor>float_div (max (float_mul (of_int \<lfloor>float_div x (of_int gi)\<rfloor>) (of_int gi)) p) (of_int gi)\<rfloor>) (of_int gi)) p
         = max (float_mul (of_int \<lfloor>float_div x (of_int gi)\<rfloor>) (of_int gi)) p"
proof -
  define n where "n = \<lfloor>float_div x (of_int gi)\<rfloor>"
  have s: "float_mul (of_int n) (of_int gi) = of_int (n * gi)"
    unfolding n_def by (rule float_mul_snapped(1) [OF x g])
  have nb: "\<bar>n\<bar> < 2 ^ 53" "\<bar>n * gi\<bar> < 2 ^ 53"
    using snapped_integer_bound [OF x g, of n] by (simp_all add: n_def float_div_def)
  show ?thesis
  proof (cases "p \<le> of_int (n * gi)")
    case True
    then have m: "max (of_int (n * gi)) p = of_int (n * gi)" by simp
    have d: "float_div (of_int (n * gi)) (of_int gi) = of_int n"
      by (rule float_div_snapped [OF g(1) nb(1)])
    have "max (float_mul (of_int \<lfloor>float_div (max (float_mul (of_int n) (of_int gi)) p) (of_int gi)\<rfloor>) (of_int gi)) p
          = max (float_mul (of_int \<lfloor>float_div (of_int (n * gi)) (of_int gi)\<rfloor>) (of_int gi)) p"
      by (simp only: s m)
    also have "\<dots> = max (float_mul (of_int \<lfloor>of_int n :: real\<rfloor>) (of_int gi)) p"
      by (simp only: d)
    also have "\<dots> = max (float_mul (of_int n) (of_int gi)) p"
      by (simp only: floor_of_int)
    finally show ?thesis unfolding n_def .
  next
    case False
    then have m: "max (of_int (n * gi)) p = p" by simp
    from p have pb: "\<bar>p\<bar> \<le> 2 ^ 50" and pd: "is_double p" by (simp_all add: page_coordinate_def)
    have s2: "float_mul (of_int \<lfloor>float_div p (of_int gi)\<rfloor>) (of_int gi)
              = of_int (\<lfloor>float_div p (of_int gi)\<rfloor> * gi)"
      by (rule float_mul_snapped(1) [OF pb g])
    from pb have "\<bar>p\<bar> < 2 ^ 53" by simp
    from snap_down_rounded_le [OF pd this g(1) page_coordinate_quotient [OF p g]]
    have le: "of_int (\<lfloor>float_div p (of_int gi)\<rfloor> * gi) \<le> p" by (simp add: float_div_def)
    have "max (float_mul (of_int \<lfloor>float_div (max (float_mul (of_int n) (of_int gi)) p) (of_int gi)\<rfloor>) (of_int gi)) p
          = max (of_int (\<lfloor>float_div p (of_int gi)\<rfloor> * gi)) p"
      by (simp only: s m s2)
    also from le have "\<dots> = p" by (rule max_absorb2)
    also have "p = max (float_mul (of_int n) (of_int gi)) p" by (simp only: s m)
    finally show ?thesis unfolding n_def .
  qed
qed

lemma upper_edge_fixed:
  fixes x p :: real and gi :: int
  assumes x: "\<bar>x\<bar> \<le> 2 ^ 50" and g: "0 < gi" "gi \<le> 2 ^ 50" and p: "page_coordinate p"
  shows "min (float_mul (of_int \<lceil>float_div (min (float_mul (of_int \<lceil>float_div x (of_int gi)\<rceil>) (of_int gi)) p) (of_int gi)\<rceil>) (of_int gi)) p
         = min (float_mul (of_int \<lceil>float_div x (of_int gi)\<rceil>) (of_int gi)) p"
proof -
  define n where "n = \<lceil>float_div x (of_int gi)\<rceil>"
  have s: "float_mul (of_int n) (of_int gi) = of_int (n * gi)"
    unfolding n_def by (rule float_mul_snapped(2) [OF x g])
  have nb: "\<bar>n\<bar> < 2 ^ 53" "\<bar>n * gi\<bar> < 2 ^ 53"
    using snapped_integer_bound [OF x g, of n] by (simp_all add: n_def float_div_def)
  show ?thesis
  proof (cases "of_int (n * gi) \<le> p")
    case True
    then have m: "min (of_int (n * gi)) p = of_int (n * gi)" by simp
    have d: "float_div (of_int (n * gi)) (of_int gi) = of_int n"
      by (rule float_div_snapped [OF g(1) nb(1)])
    have "min (float_mul (of_int \<lceil>float_div (min (float_mul (of_int n) (of_int gi)) p) (of_int gi)\<rceil>) (of_int gi)) p
          = min (float_mul (of_int \<lceil>float_div (of_int (n * gi)) (of_int gi)\<rceil>) (of_int gi)) p"
      by (simp only: s m)
    also have "\<dots> = min (float_mul (of_int \<lceil>of_int n :: real\<rceil>) (of_int gi)) p"
      by (simp only: d)
    also have "\<dots> = min (float_mul (of_int n) (of_int gi)) p"
      by (simp only: ceiling_of_int)
    finally show ?thesis unfolding n_def .
  next
    case False
    then have m: "min (of_int (n * gi)) p = p" by simp
    from p have pb: "\<bar>p\<bar> \<le> 2 ^ 50" and pd: "is_double p" by (simp_all add: page_coordinate_def)
    have s2: "float_mul (of_int \<lceil>float_div p (of_int gi)\<rceil>) (of_int gi)
              = of_int (\<lceil>float_div p (of_int gi)\<rceil> * gi)"
      by (rule float_mul_snapped(2) [OF pb g])
    from pb have "\<bar>p\<bar> < 2 ^ 53" by simp
    from snap_up_rounded_ge [OF pd this g(1) page_coordinate_quotient [OF p g]]
    have le: "p \<le> of_int (\<lceil>float_div p (of_int gi)\<rceil> * gi)" by (simp add: float_div_def)
    have "min (float_mul (of_int \<lceil>float_div (min (float_mul (of_int n) (of_int gi)) p) (of_int gi)\<rceil>) (of_int gi)) p
          = min (of_int (\<lceil>float_div p (of_int gi)\<rceil> * gi)) p"
      by (simp only: s m s2)
    also from le have "\<dots> = p" by (rule min_absorb2)
    also have "p = min (float_mul (of_int n) (of_int gi)) p" by (simp only: s m)
    finally show ?thesis unfolding n_def .
  qed
qed

lemma round_double_neg_numeral:
  "numeral k < (2::int) ^ 53 \<Longrightarrow> round_double (- numeral k) = - numeral k"
  using round_double_of_int [of "- numeral k"] by simp

lemma round_double_neg_one: "round_double (- 1) = - 1"
  using round_double_of_int [of "- 1"] by simp

lemmas round_double_integers =
  round_double_numeral round_double_neg_numeral round_double_zero_one round_double_neg_one

lemmas float_ops = float_add_def float_sub_def float_mul_def float_div_def

subsection \<open>Snapping and clamping\<close>

text \<open>
  Claim C4, at a rectangle that lies to the right of the page. The comment of line 27
  says that the rectangle is clamped to the page boundaries, but the lower edges are only
  bounded from below and the upper edges only from above: for the rectangle
  (700,100)--(710,110) on a page of 600 by 800 with grid size 10 the result is
  (700,100)--(600,110), which has its left edge to the right of its right edge and is not
  contained in the page.
\<close>

theorem snap_rect_expand_and_clamp_outside_page:
  "snap_rect_expand_and_clamp \<lparr>x0 = 700, y0 = 100, x1 = 710, y1 = 110\<rparr> \<lparr>x0 = 0, y0 = 0, x1 = 600, y1 = 800\<rparr> 10
   = Inr \<lparr>x0 = 700, y0 = 100, x1 = 600, y1 = 110\<rparr>
   \<and> valid_rect \<lparr>x0 = 700, y0 = 100, x1 = 710, y1 = 110\<rparr>
   \<and> valid_rect \<lparr>x0 = 0, y0 = 0, x1 = 600, y1 = 800\<rparr>
   \<and> \<not> valid_rect \<lparr>x0 = 700, y0 = 100, x1 = 600, y1 = 110\<rparr>
   \<and> \<not> contained_in \<lparr>x0 = 700, y0 = 100, x1 = 600, y1 = 110\<rparr> \<lparr>x0 = 0, y0 = 0, x1 = 600, y1 = 800\<rparr>"
  by (simp add: snap_rect_expand_and_clamp_def Let_def float_ops round_double_integers
        valid_rect_def contained_in_def)

text \<open>
  Claim C8, for integer grid sizes. For every positive integer grid size up to \<open>2 ^ 50\<close>,
  every rectangle with coordinates of magnitude at most \<open>2 ^ 50\<close> and every page rectangle
  whose coordinates are page coordinates (doubles of magnitude at most \<open>2 ^ 50\<close>, zero or
  of magnitude at least \<open>1 / 2 ^ 900\<close>), \<open>snap_rect_expand_and_clamp\<close> returns a rectangle, and
  applying the function to that rectangle with the same page rectangle and grid size
  returns it unchanged.
\<close>

theorem snap_rect_expand_and_clamp_idempotent_integer_grid:
  fixes gi :: int
  assumes "0 < gi" and "gi \<le> 2 ^ 50"
    and "\<bar>x0 r\<bar> \<le> 2 ^ 50" and "\<bar>y0 r\<bar> \<le> 2 ^ 50" and "\<bar>x1 r\<bar> \<le> 2 ^ 50" and "\<bar>y1 r\<bar> \<le> 2 ^ 50"
    and "page_coordinate (x0 p)" and "page_coordinate (y0 p)"
    and "page_coordinate (x1 p)" and "page_coordinate (y1 p)"
  shows "\<exists>r'. snap_rect_expand_and_clamp r p (of_int gi) = Inr r'
              \<and> snap_rect_expand_and_clamp r' p (of_int gi) = Inr r'"
proof -
  from assms(1) have nz: "(of_int gi :: real) \<noteq> 0" by simp
  note fixed =
    lower_edge_fixed [OF assms(3) assms(1,2) assms(7)]
    lower_edge_fixed [OF assms(4) assms(1,2) assms(8)]
    upper_edge_fixed [OF assms(5) assms(1,2) assms(9)]
    upper_edge_fixed [OF assms(6) assms(1,2) assms(10)]
  show ?thesis
    using nz by (simp add: snap_rect_expand_and_clamp_def Let_def fixed)
qed

theorem snap_rect_expand_and_clamp_idempotent_integer_grid_witness:
  "(0::int) < 10 \<and> (10::int) \<le> 2 ^ 50
   \<and> page_coordinate 0 \<and> page_coordinate 600 \<and> page_coordinate 800
   \<and> snap_rect_expand_and_clamp \<lparr>x0 = 13, y0 = 27, x1 = 95, y1 = 41\<rparr> \<lparr>x0 = 0, y0 = 0, x1 = 600, y1 = 800\<rparr> 10
       = Inr \<lparr>x0 = 10, y0 = 20, x1 = 100, y1 = 50\<rparr>
   \<and> snap_rect_expand_and_clamp \<lparr>x0 = 10, y0 = 20, x1 = 100, y1 = 50\<rparr> \<lparr>x0 = 0, y0 = 0, x1 = 600, y1 = 800\<rparr> 10
       = Inr \<lparr>x0 = 10, y0 = 20, x1 = 100, y1 = 50\<rparr>"
proof -
  have pc: "page_coordinate 0" "page_coordinate 600" "page_coordinate 800"
    by (simp_all add: page_coordinate_def is_double_def round_double_integers)
  have q: "\<lfloor>float_div 13 10\<rfloor> = 1" "\<lfloor>float_div 27 10\<rfloor> = 2"
    "\<lceil>float_div 95 10\<rceil> = 10" "\<lceil>float_div 41 10\<rceil> = 5"
    unfolding float_div_def
    by (subst round_double_scaled [where k = 52], simp_all add: round_half_even_def Let_def,
        subst round_double_scaled [where k = 51], simp_all add: round_half_even_def Let_def,
        subst round_double_scaled [where k = 49], simp_all add: round_half_even_def Let_def,
        subst round_double_scaled [where k = 50], simp_all add: round_half_even_def Let_def)
  have first: "snap_rect_expand_and_clamp \<lparr>x0 = 13, y0 = 27, x1 = 95, y1 = 41\<rparr> \<lparr>x0 = 0, y0 = 0, x1 = 600, y1 = 800\<rparr> 10
       = Inr \<lparr>x0 = 10, y0 = 20, x1 = 100, y1 = 50\<rparr>"
    by (simp add: snap_rect_expand_and_clamp_def Let_def q float_mul_def round_double_integers)
  from snap_rect_expand_and_clamp_idempotent_integer_grid
    [of 10 "\<lparr>x0 = 13, y0 = 27, x1 = 95, y1 = 41\<rparr>" "\<lparr>x0 = 0, y0 = 0, x1 = 600, y1 = 800\<rparr>"] pc first
  have "snap_rect_expand_and_clamp \<lparr>x0 = 10, y0 = 20, x1 = 100, y1 = 50\<rparr> \<lparr>x0 = 0, y0 = 0, x1 = 600, y1 = 800\<rparr> 10
       = Inr \<lparr>x0 = 10, y0 = 20, x1 = 100, y1 = 50\<rparr>"
    by simp
  with pc first show ?thesis by simp
qed

text \<open>
  The claim as worded, for every positive grid size, fails at the grid size \<open>1.1\<close>: the
  rectangle (17,17)--(17.5,17.5) is snapped to (16.5,16.5)--(17.6,17.6), and a second
  application moves the lower edges again, because the quotient of \<open>16.5\<close> by \<open>1.1\<close> is
  rounded to a double just below \<open>15\<close>.
\<close>

theorem snap_rect_expand_and_clamp_float_grid_counterexample:
  "0 < literal_1_1 \<and> is_double literal_1_1
   \<and> snap_rect_expand_and_clamp \<lparr>x0 = 17, y0 = 17, x1 = 35 / 2, y1 = 35 / 2\<rparr> \<lparr>x0 = 0, y0 = 0, x1 = 600, y1 = 800\<rparr> literal_1_1
       = Inr \<lparr>x0 = 33 / 2, y0 = 33 / 2, x1 = 16 * literal_1_1, y1 = 16 * literal_1_1\<rparr>
   \<and> snap_rect_expand_and_clamp
         \<lparr>x0 = 33 / 2, y0 = 33 / 2, x1 = 16 * literal_1_1, y1 = 16 * literal_1_1\<rparr> \<lparr>x0 = 0, y0 = 0, x1 = 600, y1 = 800\<rparr> literal_1_1
       = Inr \<lparr>x0 = 4334714641344103 / 2 ^ 48, y0 = 4334714641344103 / 2 ^ 48,
              x1 = 16 * literal_1_1, y1 = 16 * literal_1_1\<rparr>
   \<and> snap_rect_expand_and_clamp
         \<lparr>x0 = 33 / 2, y0 = 33 / 2, x1 = 16 * literal_1_1, y1 = 16 * literal_1_1\<rparr> \<lparr>x0 = 0, y0 = 0, x1 = 600, y1 = 800\<rparr> literal_1_1
       \<noteq> Inr \<lparr>x0 = 33 / 2, y0 = 33 / 2, x1 = 16 * literal_1_1, y1 = 16 * literal_1_1\<rparr>"
proof -
  have g: "0 < literal_1_1" "literal_1_1 \<noteq> 0" by (simp_all add: literal_1_1_def)
  have dbl: "is_double literal_1_1"
    unfolding is_double_def
    by (subst round_double_scaled [where k = 52])
      (simp_all add: literal_1_1_def round_half_even_def Let_def)
  have d1: "\<lfloor>float_div 17 literal_1_1\<rfloor> = 15"
    unfolding float_div_def
    by (subst round_double_scaled [where k = 49])
      (simp_all add: literal_1_1_def round_half_even_def Let_def)
  have m1: "float_mul 15 literal_1_1 = 33 / 2"
    unfolding float_mul_def
    by (subst round_double_scaled [where k = 48])
      (simp_all add: literal_1_1_def round_half_even_def Let_def)
  have d2: "\<lceil>float_div (35 / 2) literal_1_1\<rceil> = 16"
    unfolding float_div_def
    by (subst round_double_scaled [where k = 49])
      (simp_all add: literal_1_1_def round_half_even_def Let_def)
  have m2: "float_mul 16 literal_1_1 = 16 * literal_1_1"
    unfolding float_mul_def
    by (subst round_double_scaled [where k = 48])
      (simp_all add: literal_1_1_def round_half_even_def Let_def)
  have d3: "\<lfloor>float_div (33 / 2) literal_1_1\<rfloor> = 14"
    unfolding float_div_def
    by (subst round_double_scaled [where k = 49])
      (simp_all add: literal_1_1_def round_half_even_def Let_def)
  have m3: "float_mul 14 literal_1_1 = 4334714641344103 / 2 ^ 48"
    unfolding float_mul_def
    by (subst round_double_scaled [where k = 49])
      (simp_all add: literal_1_1_def round_half_even_def Let_def)
  have d4: "\<lceil>float_div (16 * literal_1_1) literal_1_1\<rceil> = 16"
    using g(2) by (simp add: float_div_def round_double_integers)
  have le: "16 * literal_1_1 \<le> 600" "16 * literal_1_1 \<le> 800"
    "(0::real) \<le> 4334714641344103 / 2 ^ 48"
    by (simp_all add: literal_1_1_def)
  have first: "snap_rect_expand_and_clamp \<lparr>x0 = 17, y0 = 17, x1 = 35 / 2, y1 = 35 / 2\<rparr> \<lparr>x0 = 0, y0 = 0, x1 = 600, y1 = 800\<rparr> literal_1_1
       = Inr \<lparr>x0 = 33 / 2, y0 = 33 / 2, x1 = 16 * literal_1_1, y1 = 16 * literal_1_1\<rparr>"
    using le
    by (simp add: snap_rect_expand_and_clamp_def Let_def g(2) d1 m1 d2 m2 min_absorb1 max_absorb1
          del: mult_le_cancel_left_pos)
  have second: "snap_rect_expand_and_clamp
         \<lparr>x0 = 33 / 2, y0 = 33 / 2, x1 = 16 * literal_1_1, y1 = 16 * literal_1_1\<rparr> \<lparr>x0 = 0, y0 = 0, x1 = 600, y1 = 800\<rparr> literal_1_1
       = Inr \<lparr>x0 = 4334714641344103 / 2 ^ 48, y0 = 4334714641344103 / 2 ^ 48,
              x1 = 16 * literal_1_1, y1 = 16 * literal_1_1\<rparr>"
    using le
    by (simp add: snap_rect_expand_and_clamp_def Let_def g(2) d3 m3 d4 m2 min_absorb1 max_absorb1)
  have "(4334714641344103 / 2 ^ 48 :: real) \<noteq> 33 / 2" by simp
  with g(1) dbl first second show ?thesis by simp
qed

subsection \<open>The block merger\<close>

lemma sort_keys_raw:
  "sort_keys (map raw_block tbs) = Inr (map (\<lambda>b. (y0 (tb_bbox b), raw_block b)) tbs)"
  by (induction tbs) (simp_all add: raw_block_def)

lemma filter_text_raw:
  "filter (\<lambda>b. type b = Some 0) (map raw_block tbs) = map raw_block tbs"
  by (induction tbs) (simp_all add: raw_block_def)

lemma insort_key_map:
  "insort_key f (g x) (map g xs) = map g (insort_key (\<lambda>a. f (g a)) x xs)"
  by (induction xs) simp_all

lemma sort_key_map:
  "sort_key f (map g xs) = map g (sort_key (\<lambda>a. f (g a)) xs)"
  by (induction xs) (simp_all add: insort_key_map)

lemma sorted_text_blocks_raw:
  "sorted_text_blocks (map raw_block tbs)
   = Inr (map raw_block (sort_key (\<lambda>b. y0 (tb_bbox b)) tbs))"
proof -
  have "map snd (sort_key fst (map (\<lambda>b. (y0 (tb_bbox b), raw_block b)) tbs))
        = map raw_block (sort_key (\<lambda>b. y0 (tb_bbox b)) tbs)"
    by (simp add: sort_key_map)
  then show ?thesis
    by (simp add: sorted_text_blocks_def filter_text_raw sort_keys_raw)
qed

lemma raw_block_sel:
  "type (raw_block b) = Some 0"
  "bbox (raw_block b) = Some (tb_bbox b)"
  "lines (raw_block b) = Some (tb_lines b)"
  "get_lines (raw_block b) = tb_lines b"
  by (simp_all add: raw_block_def get_lines_def)

lemma raw_block_merge:
  "(raw_block acc)\<lparr>bbox := Some \<lparr>x0 = min (x0 (tb_bbox acc)) (x0 (tb_bbox n)),
                                   y0 = min (y0 (tb_bbox acc)) (y0 (tb_bbox n)),
                                   x1 = max (x1 (tb_bbox acc)) (x1 (tb_bbox n)),
                                   y1 = max (y1 (tb_bbox acc)) (y1 (tb_bbox n))\<rparr>,
                   lines := Some (tb_lines acc @ tb_lines n)\<rparr>
   = raw_block \<lparr>tb_bbox = rect_union (tb_bbox acc) (tb_bbox n),
                tb_lines = tb_lines acc @ tb_lines n\<rparr>"
  by (simp add: raw_block_def rect_union_def)

lemma merge_loop_raw:
  "merge_loop t (map raw_block ns) (Some (raw_block acc)) merged
   = Inr (merged @ map raw_block (reference_fold t acc ns))"
proof (induction ns arbitrary: acc merged)
  case Nil
  show ?case by simp
next
  case (Cons n ns)
  show ?case
  proof (cases "merges_with t acc n")
    case True
    then have "merge_loop t (map raw_block (n # ns)) (Some (raw_block acc)) merged
               = merge_loop t (map raw_block ns)
                   (Some (raw_block \<lparr>tb_bbox = rect_union (tb_bbox acc) (tb_bbox n),
                                     tb_lines = tb_lines acc @ tb_lines n\<rparr>)) merged"
      by (simp add: merges_with_def raw_block_sel raw_block_merge Let_def)
    with True show ?thesis by (simp add: Cons.IH)
  next
    case False
    then have "merge_loop t (map raw_block (n # ns)) (Some (raw_block acc)) merged
               = merge_loop t (map raw_block ns) (Some (raw_block n)) (merged @ [raw_block acc])"
      by (auto simp add: merges_with_def raw_block_sel Let_def)
    with False show ?thesis by (simp add: Cons.IH)
  qed
qed

lemma merge_text_blocks_raw:
  "merge_text_blocks (map raw_block tbs) t = Inr (map raw_block (merge_reference tbs t))"
proof (cases "sort_key (\<lambda>b. y0 (tb_bbox b)) tbs")
  case Nil
  then show ?thesis
    by (simp add: merge_text_blocks_def sorted_text_blocks_raw merge_reference_def)
next
  case (Cons b bs)
  then show ?thesis
    by (simp add: merge_text_blocks_def sorted_text_blocks_raw merge_reference_def
          raw_block_sel merge_loop_raw)
qed

lemma merge_loop_lines:
  "merge_loop t bs cur merged = Inr out \<Longrightarrow>
   concat (map get_lines out)
   = concat (map get_lines merged) @ (case cur of None \<Rightarrow> [] | Some c \<Rightarrow> get_lines c)
     @ concat (map get_lines bs)"
proof (induction bs arbitrary: cur merged)
  case Nil
  then show ?case by (auto split: option.splits)
next
  case (Cons b bs)
  show ?case
  proof (cases cur)
    case None
    with Cons.prems Cons.IH [of "Some b" merged] show ?thesis
      by (simp split: option.splits)
  next
    case (Some c)
    with Cons.prems obtain r cr where r: "bbox b = Some r" and cr: "bbox c = Some cr"
      by (auto split: option.splits)
    show ?thesis
    proof (cases "float_sub (y0 r) (y1 cr) \<le> t \<and> \<bar>float_sub (x0 r) (x0 cr)\<bar> < 5")
      case True
      with Cons.prems Some r cr obtain ls where ls: "lines c = Some ls"
        by (auto simp: Let_def split: option.splits)
      let ?c' = "c\<lparr>bbox := Some \<lparr>x0 = min (x0 cr) (x0 r), y0 = min (y0 cr) (y0 r),
                                  x1 = max (x1 cr) (x1 r), y1 = max (y1 cr) (y1 r)\<rparr>,
                   lines := Some (ls @ get_lines b)\<rparr>"
      from Cons.prems Some r cr True ls
      have "merge_loop t bs (Some ?c') merged = Inr out"
        by (simp add: Let_def)
      from Cons.IH [OF this] Some ls show ?thesis
        by (simp add: get_lines_def)
    next
      case False
      with Cons.prems Some r cr
      have "merge_loop t bs (Some b) (merged @ [c]) = Inr out"
        by (auto simp: Let_def)
      from Cons.IH [OF this] Some show ?thesis by simp
    qed
  qed
qed

lemma mset_concat_map:
  "mset (concat (map f xs)) = (\<Sum>x\<in>#mset xs. mset (f x))"
  by (induction xs) simp_all

lemma mset_concat_map_cong:
  "mset xs = mset ys \<Longrightarrow> mset (concat (map f xs)) = mset (concat (map f ys))"
  by (simp add: mset_concat_map)

lemma sort_keys_snd:
  "sort_keys bs = Inr ks \<Longrightarrow> map snd ks = bs"
  by (induction bs arbitrary: ks) (auto split: option.splits sum.splits)

lemma merge_text_blocks_lines:
  assumes "merge_text_blocks blocks t = Inr out"
  shows "mset (concat (map get_lines out))
         = mset (concat (map get_lines (filter (\<lambda>b. type b = Some 0) blocks)))"
proof -
  from assms obtain ks where
    ks: "sort_keys (filter (\<lambda>b. type b = Some 0) blocks) = Inr ks" and
    loop: "merge_loop t (map snd (sort_key fst ks)) None [] = Inr out"
    by (auto simp: merge_text_blocks_def sorted_text_blocks_def split: sum.splits)
  from merge_loop_lines [OF loop]
  have "concat (map get_lines out) = concat (map get_lines (map snd (sort_key fst ks)))"
    by simp
  moreover have "mset (map snd (sort_key fst ks)) = mset (map snd ks)"
    by simp
  then have "mset (concat (map get_lines (map snd (sort_key fst ks))))
             = mset (concat (map get_lines (map snd ks)))"
    by (rule mset_concat_map_cong)
  ultimately show ?thesis by (simp only: sort_keys_snd [OF ks])
qed

text \<open>
  Claim C5. For every sequence of raw text blocks and every threshold (in particular every
  non-negative one), \<open>merge_text_blocks\<close> returns, and the multiset of the lines of its
  output blocks is the multiset of the lines of the input blocks: no line is dropped and
  none is duplicated.
\<close>

theorem merge_text_blocks_conserves_lines:
  "\<exists>out. merge_text_blocks (map raw_block tbs) t = Inr out
         \<and> mset (concat (map get_lines out)) = mset (concat (map tb_lines tbs))"
proof -
  obtain out where out: "merge_text_blocks (map raw_block tbs) t = Inr out"
    by (simp add: merge_text_blocks_raw)
  have "map get_lines (map raw_block tbs) = map tb_lines tbs"
    by (simp add: raw_block_sel)
  with merge_text_blocks_lines [OF out] have
    "mset (concat (map get_lines out)) = mset (concat (map tb_lines tbs))"
    by (simp only: filter_text_raw)
  with out show ?thesis by blast
qed

theorem merge_text_blocks_conserves_lines_witness:
  "\<exists>out. merge_text_blocks
            [raw_block \<lparr>tb_bbox = \<lparr>x0 = 51, y0 = 160, x1 = 300, y1 = 210\<rparr>, tb_lines = [\<lparr>spans = None\<rparr>]\<rparr>,
             raw_block \<lparr>tb_bbox = \<lparr>x0 = 50, y0 = 100, x1 = 300, y1 = 150\<rparr>, tb_lines = [\<lparr>spans = Some []\<rparr>]\<rparr>] 15 = Inr out
         \<and> mset (concat (map get_lines out)) = {#\<lparr>spans = None\<rparr>, \<lparr>spans = Some []\<rparr>#}"
  using merge_text_blocks_conserves_lines
    [of "[\<lparr>tb_bbox = \<lparr>x0 = 51, y0 = 160, x1 = 300, y1 = 210\<rparr>, tb_lines = [\<lparr>spans = None\<rparr>]\<rparr>,
          \<lparr>tb_bbox = \<lparr>x0 = 50, y0 = 100, x1 = 300, y1 = 150\<rparr>, tb_lines = [\<lparr>spans = Some []\<rparr>]\<rparr>]" 15]
  by simp

text \<open>
  Claim C6. On every sequence of raw text blocks (type \<open>0\<close>, each with a bounding box and
  a line list) and every threshold, \<open>merge_text_blocks\<close> returns what the reference
  algorithm of the specification returns: the blocks sorted by \<open>y0\<close>, folded with one
  accumulator that absorbs the next block when the vertical gap is at most the threshold
  and the left edges differ by less than \<open>5\<close>. An empty input gives an empty output and a
  single block is returned unchanged.
\<close>

theorem merge_text_blocks_refines_reference:
  "merge_text_blocks (map raw_block tbs) t = Inr (map raw_block (merge_reference tbs t))
   \<and> merge_text_blocks [] t = Inr []
   \<and> merge_text_blocks [raw_block b] t = Inr [raw_block b]"
proof -
  have "merge_text_blocks (map raw_block []) t = Inr (map raw_block (merge_reference [] t))"
    by (rule merge_text_blocks_raw)
  moreover
  have "merge_text_blocks (map raw_block [b]) t = Inr (map raw_block (merge_reference [b] t))"
    by (rule merge_text_blocks_raw)
  ultimately show ?thesis
    by (simp add: merge_text_blocks_raw merge_reference_def)
qed

theorem merge_text_blocks_refines_reference_witness:
  "merge_text_blocks
     [raw_block \<lparr>tb_bbox = \<lparr>x0 = 51, y0 = 160, x1 = 300, y1 = 210\<rparr>, tb_lines = [\<lparr>spans = None\<rparr>]\<rparr>,
      raw_block \<lparr>tb_bbox = \<lparr>x0 = 50, y0 = 100, x1 = 300, y1 = 150\<rparr>, tb_lines = [\<lparr>spans = Some []\<rparr>]\<rparr>] 15
   = Inr [raw_block \<lparr>tb_bbox = \<lparr>x0 = 50, y0 = 100, x1 = 300, y1 = 210\<rparr>, tb_lines = [\<lparr>spans = Some []\<rparr>, \<lparr>spans = None\<rparr>]\<rparr>]"
proof -
  have "merge_reference
          [\<lparr>tb_bbox = \<lparr>x0 = 51, y0 = 160, x1 = 300, y1 = 210\<rparr>, tb_lines = [\<lparr>spans = None\<rparr>]\<rparr>,
           \<lparr>tb_bbox = \<lparr>x0 = 50, y0 = 100, x1 = 300, y1 = 150\<rparr>, tb_lines = [\<lparr>spans = Some []\<rparr>]\<rparr>] 15
        = [\<lparr>tb_bbox = \<lparr>x0 = 50, y0 = 100, x1 = 300, y1 = 210\<rparr>, tb_lines = [\<lparr>spans = Some []\<rparr>, \<lparr>spans = None\<rparr>]\<rparr>]"
    by (simp add: merge_reference_def merges_with_def rect_union_def float_ops
          round_double_integers)
  with merge_text_blocks_refines_reference
    [of "[\<lparr>tb_bbox = \<lparr>x0 = 51, y0 = 160, x1 = 300, y1 = 210\<rparr>, tb_lines = [\<lparr>spans = None\<rparr>]\<rparr>,
          \<lparr>tb_bbox = \<lparr>x0 = 50, y0 = 100, x1 = 300, y1 = 150\<rparr>, tb_lines = [\<lparr>spans = Some []\<rparr>]\<rparr>]" 15]
  show ?thesis by simp
qed

text \<open>
  Claim C9. \<open>merge_text_blocks\<close> is a function of its two arguments, so equal inputs give
  equal ordered outputs. The order in which it visits the blocks is the stable sort on
  \<open>y0\<close>: the visiting order is sorted by \<open>y0\<close>, it is a rearrangement of the input, and
  the blocks with any one value of \<open>y0\<close> keep their relative input order.
\<close>

theorem merge_text_blocks_deterministic_stable:
  "\<exists>srt. sorted_text_blocks (map raw_block tbs) = Inr (map raw_block srt)
         \<and> merge_text_blocks (map raw_block tbs) t = merge_loop t (map raw_block srt) None []
         \<and> sorted (map (\<lambda>b. y0 (tb_bbox b)) srt)
         \<and> mset srt = mset tbs
         \<and> (\<forall>k. filter (\<lambda>b. y0 (tb_bbox b) = k) srt = filter (\<lambda>b. y0 (tb_bbox b) = k) tbs)
         \<and> (\<forall>blocks' t'. blocks' = map raw_block tbs \<and> t' = t \<longrightarrow>
               merge_text_blocks blocks' t' = merge_text_blocks (map raw_block tbs) t)"
proof -
  let ?srt = "sort_key (\<lambda>b. y0 (tb_bbox b)) tbs"
  have "sorted_text_blocks (map raw_block tbs) = Inr (map raw_block ?srt)"
    by (rule sorted_text_blocks_raw)
  moreover from this
  have "merge_text_blocks (map raw_block tbs) t = merge_loop t (map raw_block ?srt) None []"
    by (simp add: merge_text_blocks_def)
  moreover have "sorted (map (\<lambda>b. y0 (tb_bbox b)) ?srt)"
    by (rule sorted_sort_key)
  moreover have "mset ?srt = mset tbs"
    by (rule mset_sort)
  moreover have "\<forall>k. filter (\<lambda>b. y0 (tb_bbox b) = k) ?srt = filter (\<lambda>b. y0 (tb_bbox b) = k) tbs"
    by (simp add: sort_key_stable)
  ultimately show ?thesis by blast
qed

theorem merge_text_blocks_deterministic_stable_witness:
  "\<exists>srt. sorted_text_blocks
            [raw_block \<lparr>tb_bbox = \<lparr>x0 = 51, y0 = 160, x1 = 300, y1 = 210\<rparr>, tb_lines = [\<lparr>spans = None\<rparr>]\<rparr>,
             raw_block \<lparr>tb_bbox = \<lparr>x0 = 50, y0 = 100, x1 = 300, y1 = 150\<rparr>, tb_lines = [\<lparr>spans = Some []\<rparr>]\<rparr>,
             raw_block \<lparr>tb_bbox = \<lparr>x0 = 50, y0 = 100, x1 = 300, y1 = 210\<rparr>, tb_lines = [\<lparr>spans = Some []\<rparr>, \<lparr>spans = None\<rparr>]\<rparr>]
          = Inr (map raw_block srt)
         \<and> filter (\<lambda>b. y0 (tb_bbox b) = 100) srt
           = [\<lparr>tb_bbox = \<lparr>x0 = 50, y0 = 100, x1 = 300, y1 = 150\<rparr>, tb_lines = [\<lparr>spans = Some []\<rparr>]\<rparr>,
              \<lparr>tb_bbox = \<lparr>x0 = 50, y0 = 100, x1 = 300, y1 = 210\<rparr>, tb_lines = [\<lparr>spans = Some []\<rparr>, \<lparr>spans = None\<rparr>]\<rparr>]"
  using merge_text_blocks_deterministic_stable
    [of "[\<lparr>tb_bbox = \<lparr>x0 = 51, y0 = 160, x1 = 300, y1 = 210\<rparr>, tb_lines = [\<lparr>spans = None\<rparr>]\<rparr>,
          \<lparr>tb_bbox = \<lparr>x0 = 50, y0 = 100, x1 = 300, y1 = 150\<rparr>, tb_lines = [\<lparr>spans = Some []\<rparr>]\<rparr>,
          \<lparr>tb_bbox = \<lparr>x0 = 50, y0 = 100, x1 = 300, y1 = 210\<rparr>, tb_lines = [\<lparr>spans = Some []\<rparr>, \<lparr>spans = None\<rparr>]\<rparr>]" 15]
  by auto

subsection \<open>Image extraction\<close>



lemma extract_loop_nothing_resolves:
  "list_all (\<lambda>xr. get_image_bbox page (ImageXref xr) = None) xs \<Longrightarrow>
   extract_loop page xs images = images"
  by (induction xs arbitrary: images) simp_all

lemma extract_images_nothing_resolves:
  "list_all (\<lambda>xr. get_image_bbox page (ImageXref xr) = None) (get_images page) \<Longrightarrow>
   extract_images_with_bboxes page = []"
  by (simp add: extract_images_with_bboxes_def extract_loop_nothing_resolves)

text \<open>
  Claim C7, at a page of 600 by 800 with one image of 200 by 150 in its centre. The
  placement rectangle of the image resolves when the item of the image list is passed,
  and it passes the size filter and the background filter; but line 79 passes the bare
  xref, which the library answers with an exception, so the image is skipped and nothing
  is retained.
\<close>

theorem extract_images_drops_centred_image:
  "get_image_bbox centred_image_page (ImageItem 1) = Some \<lparr>x0 = 200, y0 = 325, x1 = 400, y1 = 475\<rparr>
   \<and> keeps_image (page_rect centred_image_page) \<lparr>x0 = 200, y0 = 325, x1 = 400, y1 = 475\<rparr>
   \<and> get_image_bbox centred_image_page (ImageXref 1) = None
   \<and> extract_images_with_bboxes centred_image_page = []"
proof -
  have fm: "float_mul 600 literal_0_98 = 588" "float_mul 800 literal_0_98 = 784"
    unfolding float_mul_def
    by (subst round_double_scaled [where k = 43],
        simp_all add: literal_0_98_def round_half_even_def Let_def)+
  have "keeps_image \<lparr>x0 = 0, y0 = 0, x1 = 600, y1 = 800\<rparr> \<lparr>x0 = 200, y0 = 325, x1 = 400, y1 = 475\<rparr>"
    by (simp add: keeps_image_def width_def height_def float_sub_def round_double_integers
          fm Let_def)
  then show ?thesis
    by (simp add: centred_image_page_def extract_images_with_bboxes_def)
qed

subsection \<open>Image failures\<close>













subsection \<open>The page rewriter\<close>

text \<open>
  Claim C3. \<open>process_pdf\<close> returns the same result for any two grid sizes and any two
  merge thresholds, and so does \<open>handle_file\<close>: neither parameter is read.
\<close>

theorem process_pdf_ignores_grid_size_and_merge_threshold:
  "process_pdf fs input_path g1 m1 = process_pdf fs input_path g2 m2
   \<and> handle_file fs input_path g1 m1 = handle_file fs input_path g2 m2"
  by (simp add: process_pdf_def handle_file_def Let_def)

theorem process_pdf_ignores_grid_size_and_merge_threshold_witness:
  "process_pdf (one_document [scenario_page]) ''in.pdf'' 5 5
   = process_pdf (one_document [scenario_page]) ''in.pdf'' 50 50
   \<and> handle_file (one_document [scenario_page]) ''in.pdf'' 5 5
     = handle_file (one_document [scenario_page]) ''in.pdf'' 50 50"
  using process_pdf_ignores_grid_size_and_merge_threshold
    [of "one_document [scenario_page]" "''in.pdf''" 5 5 50 50]
  by simp

text \<open>
  Claim C1, at the end-to-end scenario. \<open>process_pdf\<close> with merge threshold 15 draws the
  two text blocks of the page one by one, each with its own outline, exactly as they were
  extracted; it calls neither \<open>merge_text_blocks\<close> nor \<open>extract_images_with_bboxes\<close>.
  \<open>merge_text_blocks\<close> with threshold 15 on the same blocks returns the single merged
  block with both lines in top-to-bottom order.
\<close>

theorem process_pdf_draws_blocks_unmerged:
  "process_pdf (one_document [scenario_page]) ''in.pdf'' 10 15
   = Inr \<lparr>saved_pages =
            [[DrawRect \<lparr>x0 = 0, y0 = 0, x1 = 600, y1 = 800\<rparr> (Some (1, 1, 1)) (Some (1, 1, 1)) 1 True,
              DrawRect \<lparr>x0 = 53, y0 = 103, x1 = 297, y1 = 147\<rparr> (Some (0.9, 0.9, 0.9)) None 0.5 True,
              DrawRect \<lparr>x0 = 53, y0 = 103, x1 = 303, y1 = 153\<rparr> None (Some (1, 1, 1)) 1 True,
              InsertText (53, 143) ''First'' ''helv'' 12 (0, 0, 0),
              DrawRect \<lparr>x0 = 54, y0 = 163, x1 = 297, y1 = 207\<rparr> (Some (0.9, 0.9, 0.9)) None 0.5 True,
              DrawRect \<lparr>x0 = 54, y0 = 163, x1 = 303, y1 = 213\<rparr> None (Some (1, 1, 1)) 1 True,
              InsertText (54, 203) ''Second'' ''helv'' 12 (0, 0, 0)]],
          saved_path = ''in-Accessible-Copy.pdf''\<rparr>
   \<and> merge_text_blocks (get_text_blocks scenario_page) 15
     = Inr [raw_block \<lparr>tb_bbox = \<lparr>x0 = 50, y0 = 100, x1 = 300, y1 = 210\<rparr>,
                       tb_lines = [first_line, second_line]\<rparr>]"
proof -
  have "process_page scenario_page
        = Inr [DrawRect \<lparr>x0 = 0, y0 = 0, x1 = 600, y1 = 800\<rparr> (Some (1, 1, 1)) (Some (1, 1, 1)) 1 True,
              DrawRect \<lparr>x0 = 53, y0 = 103, x1 = 297, y1 = 147\<rparr> (Some (0.9, 0.9, 0.9)) None 0.5 True,
              DrawRect \<lparr>x0 = 53, y0 = 103, x1 = 303, y1 = 153\<rparr> None (Some (1, 1, 1)) 1 True,
              InsertText (53, 143) ''First'' ''helv'' 12 (0, 0, 0),
              DrawRect \<lparr>x0 = 54, y0 = 163, x1 = 297, y1 = 207\<rparr> (Some (0.9, 0.9, 0.9)) None 0.5 True,
              DrawRect \<lparr>x0 = 54, y0 = 163, x1 = 303, y1 = 213\<rparr> None (Some (1, 1, 1)) 1 True,
              InsertText (54, 203) ''Second'' ''helv'' 12 (0, 0, 0)]"
    by (simp add: scenario_page_def process_page_def draw_block_def draw_line_def
          draw_span_def raw_block_def get_lines_def first_line_def second_line_def
          strip_def is_space_def margin_def width_def height_def Let_def
          float_ops round_double_integers)
  then have "process_pdf (one_document [scenario_page]) ''in.pdf'' 10 15
   = Inr \<lparr>saved_pages =
            [[DrawRect \<lparr>x0 = 0, y0 = 0, x1 = 600, y1 = 800\<rparr> (Some (1, 1, 1)) (Some (1, 1, 1)) 1 True,
              DrawRect \<lparr>x0 = 53, y0 = 103, x1 = 297, y1 = 147\<rparr> (Some (0.9, 0.9, 0.9)) None 0.5 True,
              DrawRect \<lparr>x0 = 53, y0 = 103, x1 = 303, y1 = 153\<rparr> None (Some (1, 1, 1)) 1 True,
              InsertText (53, 143) ''First'' ''helv'' 12 (0, 0, 0),
              DrawRect \<lparr>x0 = 54, y0 = 163, x1 = 297, y1 = 207\<rparr> (Some (0.9, 0.9, 0.9)) None 0.5 True,
              DrawRect \<lparr>x0 = 54, y0 = 163, x1 = 303, y1 = 213\<rparr> None (Some (1, 1, 1)) 1 True,
              InsertText (54, 203) ''Second'' ''helv'' 12 (0, 0, 0)]],
          saved_path = ''in-Accessible-Copy.pdf''\<rparr>"
    by (simp add: process_pdf_def one_document_def)
  moreover
  have "merge_text_blocks (get_text_blocks scenario_page) 15
     = Inr [raw_block \<lparr>tb_bbox = \<lparr>x0 = 50, y0 = 100, x1 = 300, y1 = 210\<rparr>,
                       tb_lines = [first_line, second_line]\<rparr>]"
    by (simp add: scenario_page_def merge_text_blocks_def sorted_text_blocks_def
          raw_block_def get_lines_def Let_def float_ops round_double_integers)
  ultimately show ?thesis by (rule conjI)
qed

subsection \<open>Output naming\<close>

lemma splitext_concat:
  "splitext p = (base, ext) \<Longrightarrow> base @ ext = p"
  by (auto simp: splitext_def Let_def split: if_splits)

lemma create_output_filename_new_path:
  "create_output_filename p \<noteq> p"
proof -
  obtain base ext where s: "splitext p = (base, ext)" by (cases "splitext p")
  then have "length (create_output_filename p) = length base + 16 + length ext"
    by (simp add: create_output_filename_def)
  moreover from s have "length p = length base + length ext"
    using splitext_concat [OF s] by (metis length_append)
  ultimately show ?thesis by auto
qed

text \<open>
  Claim C2, at a PDF path with an upper-case extension and at a PDF path in which
  \<open>.pdf\<close> also occurs in a directory name. \<open>handle_file\<close> accepts \<open>report.PDF\<close>, but
  the path of line 268 is the input path itself, because \<open>replace\<close> finds no lower-case
  \<open>.pdf\<close> in it: \<open>doc.save\<close> refuses it and the conversion ends in the error dialog
  without an output file. For \<open>v1.pdf.d/report.pdf\<close> the marker is also inserted into
  the directory name, so the file is written to another directory when that directory
  can be written to. \<open>create_output_filename\<close>, which the two other formats use, gives
  the path in the same directory with the marker before the extension in both cases.
\<close>

theorem process_pdf_output_path_not_derived:
  "replace ''report.PDF'' ''.pdf'' ''-Accessible-Copy.pdf'' = ''report.PDF''
   \<and> handle_file (one_document [scenario_page]) ''report.PDF'' 20 30 = ErrorDialog ValueError
   \<and> create_output_filename ''report.PDF'' = ''report-Accessible-Copy.PDF''
   \<and> written_path (handle_file (one_document [scenario_page]) ''v1.pdf.d/report.pdf'' 20 30)
     = Some ''v1-Accessible-Copy.pdf.d/report-Accessible-Copy.pdf''
   \<and> create_output_filename ''v1.pdf.d/report.pdf'' = ''v1.pdf.d/report-Accessible-Copy.pdf''
   \<and> written_path (handle_file (one_document [scenario_page]) ''v1.docx.d/report.DOCX'' 20 30)
     = Some ''v1.docx.d/report-Accessible-Copy.DOCX''"
proof -
  have ok: "\<exists>ops. process_pages [scenario_page] = Inr ops"
    by (simp add: scenario_page_def process_page_def draw_block_def draw_line_def
          draw_span_def raw_block_def get_lines_def first_line_def second_line_def
          strip_def is_space_def margin_def width_def height_def Let_def
          float_ops round_double_integers)
  have e1: "lower (snd (splitext ''report.PDF'')) = ''.pdf''"
    by (simp add: splitext_def Let_def lower_def lower_char_def)
  have e2: "lower (snd (splitext ''v1.pdf.d/report.pdf'')) = ''.pdf''"
    by (simp add: splitext_def Let_def lower_def lower_char_def)
  have e3: "lower (snd (splitext ''v1.docx.d/report.DOCX'')) = ''.docx''"
    by (simp add: splitext_def Let_def lower_def lower_char_def)
  have r1: "replace ''report.PDF'' ''.pdf'' ''-Accessible-Copy.pdf'' = ''report.PDF''"
    by simp
  have r2: "replace ''v1.pdf.d/report.pdf'' ''.pdf'' ''-Accessible-Copy.pdf''
            = ''v1-Accessible-Copy.pdf.d/report-Accessible-Copy.pdf''"
    by simp
  from ok obtain ops where ops: "process_pages [scenario_page] = Inr ops" ..
  have "handle_file (one_document [scenario_page]) ''report.PDF'' 20 30 = ErrorDialog ValueError"
    by (simp add: handle_file_def Let_def e1 process_pdf_def one_document_def ops r1
          del: replace.simps process_pages.simps)
  moreover have "create_output_filename ''report.PDF'' = ''report-Accessible-Copy.PDF''"
    by (simp add: create_output_filename_def splitext_def Let_def)
  moreover
  have "written_path (handle_file (one_document [scenario_page]) ''v1.pdf.d/report.pdf'' 20 30)
        = Some ''v1-Accessible-Copy.pdf.d/report-Accessible-Copy.pdf''"
    by (simp add: handle_file_def Let_def e2 process_pdf_def one_document_def ops r2
          written_path_def del: replace.simps process_pages.simps)
  moreover have "create_output_filename ''v1.pdf.d/report.pdf''
                 = ''v1.pdf.d/report-Accessible-Copy.pdf''"
    by (simp add: create_output_filename_def splitext_def Let_def)
  moreover
  have "written_path (handle_file (one_document [scenario_page]) ''v1.docx.d/report.DOCX'' 20 30)
        = Some ''v1.docx.d/report-Accessible-Copy.DOCX''"
    by (simp add: handle_file_def Let_def e3 written_path_def process_flow_def one_document_def)
      (simp add: create_output_filename_def splitext_def Let_def)
  ultimately show ?thesis using r1 by (intro conjI)
qed

end
